theory Spec2Isabelle
  imports Complex_Main
begin

section \<open>Python values\<close>

text \<open>
  The service and the log scanner pass around decoded JSON: Python \<^verbatim>\<open>None\<close>, booleans,
  integers, floats, strings, lists and dictionaries. A dictionary is an association list
  in insertion order with distinct keys. A float is modelled by the real number it
  denotes; NaN and the infinities are not modelled.
\<close>

datatype json =
    JNull
  | JBool bool
  | JInt int
  | JFloat real
  | JStr string
  | JArr "json list"
  | JObj "(string \<times> json) list"

text \<open>The exceptions the modelled code can raise.\<close>

datatype py_error =
    TypeError
  | ValueError
  | AttributeError
  | IndexError
  | JSONDecodeError
  | OtherError string

text \<open>Python truthiness: \<^verbatim>\<open>bool(x)\<close>, as used by \<^verbatim>\<open>or\<close>, \<^verbatim>\<open>not\<close> and \<^verbatim>\<open>if x\<close>.\<close>

fun truthy :: "json \<Rightarrow> bool" where
  "truthy JNull = False"
| "truthy (JBool b) = b"
| "truthy (JInt i) = (i \<noteq> 0)"
| "truthy (JFloat r) = (r \<noteq> 0)"
| "truthy (JStr s) = (s \<noteq> [])"
| "truthy (JArr xs) = (xs \<noteq> [])"
| "truthy (JObj kvs) = (kvs \<noteq> [])"

text \<open>\<^verbatim>\<open>a or b\<close>\<close>

definition py_or :: "json \<Rightarrow> json \<Rightarrow> json" where
  "py_or a b = (if truthy a then a else b)"

text \<open>\<^verbatim>\<open>d.get(k)\<close> on a dictionary; \<^verbatim>\<open>None\<close> when the key is missing.\<close>

definition dict_get :: "(string \<times> json) list \<Rightarrow> string \<Rightarrow> json" where
  "dict_get kvs k = (case map_of kvs k of None \<Rightarrow> JNull | Some v \<Rightarrow> v)"

section \<open>intelligence/core/cache.py\<close>

record LruCache =
  max_size :: int
  store :: "string \<rightharpoonup> json"
  order :: "string list"

definition LruCache_init :: "int \<Rightarrow> LruCache" where
  "LruCache_init n = \<lparr>max_size = max n 0, store = Map.empty, order = []\<rparr>"

text \<open>
  \<^verbatim>\<open>get\<close> is a method of a mutable object: the model returns the looked-up value together
  with the cache it leaves behind.
\<close>

definition LruCache_get :: "LruCache \<Rightarrow> string \<Rightarrow> json option \<times> LruCache" where
  "LruCache_get c key = (store c key, c)"

text \<open>
  The eviction loop of \<^verbatim>\<open>set\<close>:
  \<^verbatim>\<open>while len(self._order) > self.max_size: oldest = self._order.pop(0); self._store.pop(oldest, None)\<close>.
  \<^verbatim>\<open>pop(0)\<close> on an empty list raises IndexError.
\<close>

fun evict :: "int \<Rightarrow> (string \<rightharpoonup> json) \<Rightarrow> string list \<Rightarrow>
    py_error + ((string \<rightharpoonup> json) \<times> string list)" where
  "evict ms st [] = (if int (length ([] :: string list)) > ms then Inl IndexError else Inr (st, []))"
| "evict ms st (oldest # rest) =
     (if int (length (oldest # rest)) > ms then evict ms (st(oldest := None)) rest
      else Inr (st, oldest # rest))"

definition LruCache_set :: "LruCache \<Rightarrow> string \<Rightarrow> json \<Rightarrow> py_error + LruCache" where
  "LruCache_set c key v =
     (if max_size c \<le> 0 then Inr c
      else if store c key \<noteq> None then Inr (c\<lparr>store := (store c)(key \<mapsto> v)\<rparr>)
      else (case evict (max_size c) ((store c)(key \<mapsto> v)) (order c @ [key]) of
              Inl e \<Rightarrow> Inl e
            | Inr (st, ord) \<Rightarrow> Inr (c\<lparr>store := st, order := ord\<rparr>)))"

definition LruCache_size :: "LruCache \<Rightarrow> int" where
  "LruCache_size c = max_size c"

text \<open>A sequence of \<^verbatim>\<open>set\<close> calls, stopping at the first exception.\<close>

fun set_all :: "LruCache \<Rightarrow> (string \<times> json) list \<Rightarrow> py_error + LruCache" where
  "set_all c [] = Inr c"
| "set_all c ((k, v) # kvs) =
     (case LruCache_set c k v of Inl e \<Rightarrow> Inl e | Inr c' \<Rightarrow> set_all c' kvs)"

text \<open>
  The representation invariant of a cache: the order list holds exactly the stored keys,
  each once, and never more of them than the capacity.
\<close>

definition cache_wf :: "LruCache \<Rightarrow> bool" where
  "cache_wf c \<longleftrightarrow> 0 \<le> max_size c \<and> distinct (order c) \<and> set (order c) = dom (store c)
      \<and> int (length (order c)) \<le> max_size c"

definition demo_entries :: "(string \<times> json) list" where
  "demo_entries = [(''k1'', JInt 1), (''k2'', JInt 2), (''k3'', JInt 3)]"

definition demo_cache :: LruCache where
  "demo_cache = \<lparr>max_size = 2, store = [''k1'' \<mapsto> JInt 1, ''k2'' \<mapsto> JInt 2], order = [''k1'', ''k2'']\<rparr>"

section \<open>intelligence/core/utils.py and the Python built-ins the planner uses\<close>

text \<open>\<^verbatim>\<open>path.split(".")\<close>: a string without the separator gives one part.\<close>

fun split_on :: "char \<Rightarrow> string \<Rightarrow> string list" where
  "split_on sep [] = [[]]"
| "split_on sep (c # cs) =
     (if c = sep then [] # split_on sep cs
      else (case split_on sep cs of [] \<Rightarrow> [[c]] | p # ps \<Rightarrow> (c # p) # ps))"

text \<open>
  The loop of \<^verbatim>\<open>get_path\<close>: \<^verbatim>\<open>None\<close> as soon as the current value is not a dictionary or
  lacks the part.
\<close>

fun walk :: "json \<Rightarrow> string list \<Rightarrow> json" where
  "walk cur [] = cur"
| "walk (JObj kvs) (part # parts) =
     (case map_of kvs part of None \<Rightarrow> JNull | Some v \<Rightarrow> walk v parts)"
| "walk cur (part # parts) = JNull"

definition get_path :: "json \<Rightarrow> string \<Rightarrow> json" where
  "get_path obj path = walk obj (split_on (CHR ''.'') path)"

text \<open>\<^verbatim>\<open>obj.get(k)\<close>: only a dictionary has the method.\<close>

fun obj_get :: "json \<Rightarrow> string \<Rightarrow> py_error + json" where
  "obj_get (JObj kvs) k = Inr (dict_get kvs k)"
| "obj_get other k = Inl AttributeError"

text \<open>
  What the interpreter and its library supply at run time: a fresh \<^verbatim>\<open>uuid.uuid4().hex\<close>, the
  clock reading of \<^verbatim>\<open>now_iso()\<close>, and the numeral parsers behind \<^verbatim>\<open>int(str)\<close> and
  \<^verbatim>\<open>float(str)\<close>, which give nothing where Python raises ValueError.
\<close>

record runtime =
  uuid4_hex :: string
  now_iso :: string
  int_of_str :: "string \<Rightarrow> int option"
  float_of_str :: "string \<Rightarrow> real option"

text \<open>\<^verbatim>\<open>int(x)\<close> of a float truncates toward zero.\<close>

definition py_trunc :: "real \<Rightarrow> int" where
  "py_trunc x = (if x < 0 then \<lceil>x\<rceil> else \<lfloor>x\<rfloor>)"

fun py_int :: "runtime \<Rightarrow> json \<Rightarrow> py_error + int" where
  "py_int rt JNull = Inl TypeError"
| "py_int rt (JBool b) = Inr (if b then 1 else 0)"
| "py_int rt (JInt i) = Inr i"
| "py_int rt (JFloat r) = Inr (py_trunc r)"
| "py_int rt (JStr s) = (case int_of_str rt s of None \<Rightarrow> Inl ValueError | Some i \<Rightarrow> Inr i)"
| "py_int rt (JArr xs) = Inl TypeError"
| "py_int rt (JObj kvs) = Inl TypeError"

fun py_float :: "runtime \<Rightarrow> json \<Rightarrow> py_error + real" where
  "py_float rt JNull = Inl TypeError"
| "py_float rt (JBool b) = Inr (if b then 1 else 0)"
| "py_float rt (JInt i) = Inr (real_of_int i)"
| "py_float rt (JFloat r) = Inr r"
| "py_float rt (JStr s) = (case float_of_str rt s of None \<Rightarrow> Inl ValueError | Some r \<Rightarrow> Inr r)"
| "py_float rt (JArr xs) = Inl TypeError"
| "py_float rt (JObj kvs) = Inl TypeError"

text \<open>\<^verbatim>\<open>str(n)\<close> of an integer, as the f-strings render it.\<close>

definition digit_char :: "nat \<Rightarrow> char" where
  "digit_char d = char_of (48 + d)"

function str_nat :: "nat \<Rightarrow> string" where
  "str_nat n = (if n < 10 then [digit_char n] else str_nat (n div 10) @ [digit_char (n mod 10)])"
  by pat_completeness auto
termination
  by (relation "measure id") auto

declare str_nat.simps [simp del]

definition str_int :: "int \<Rightarrow> string" where
  "str_int i = (if i < 0 then CHR ''-'' # str_nat (nat (- i)) else str_nat (nat i))"

definition str_bool :: "bool \<Rightarrow> string" where
  "str_bool b = (if b then ''True'' else ''False'')"

text \<open>
  \<^verbatim>\<open>f"{x:.2f}"\<close>: the value rounded to two decimals, ties to the even neighbour, with the
  sign of a negative value kept.
\<close>

definition round_half_even :: "real \<Rightarrow> nat" where
  "round_half_even r =
     (let f = nat \<lfloor>r\<rfloor>; d = r - real_of_int \<lfloor>r\<rfloor>
      in if d < 1 / 2 then f else if 1 / 2 < d then f + 1 else if even f then f else f + 1)"

definition format_2f :: "real \<Rightarrow> string" where
  "format_2f x =
     (let n = round_half_even (\<bar>x\<bar> * 100)
      in (if x < 0 then ''-'' else '''') @ str_nat (n div 100) @ ''.''
           @ [digit_char (n div 10 mod 10), digit_char (n mod 10)])"

section \<open>intelligence/planners/rule.py\<close>

record Action =
  type :: string
  risk :: int
  expectedImpact :: int
  reversible :: bool
  parameters :: "(string \<times> json) list"
  rationale :: string

record Plan =
  planId :: string
  strategy :: string
  priority :: int
  summary :: string
  actions :: "Action list"
  rollbackActions :: "Action list"
  plan_rationale :: "string list"
  tags :: "(string \<times> json) list"

definition compute_priority :: "int \<Rightarrow> real \<Rightarrow> int \<Rightarrow> int" where
  "compute_priority severity confidence criticality =
     (let base = severity + (criticality * 10);
          boosted = base + py_trunc (confidence * 20)
      in min (max boosted 0) 100)"

text \<open>The \<^verbatim>\<open>defaults\<close> table of \<^verbatim>\<open>_action\<close>: risk, expected impact, reversible.\<close>

definition defaults :: "(string \<times> (int \<times> int \<times> bool)) list" where
  "defaults =
     [(''BlockIp'', (55, 30, True)),
      (''UnblockIp'', (10, 5, False)),
      (''IsolateHost'', (70, 60, True)),
      (''UnisolateHost'', (15, 10, False)),
      (''DisableUser'', (65, 50, True)),
      (''EnableUser'', (15, 10, False)),
      (''KillProcess'', (85, 85, False)),
      (''QuarantineFile'', (85, 85, False)),
      (''OpenTicket'', (5, 5, False)),
      (''Notify'', (5, 5, False)),
      (''CollectForensics'', (35, 20, False))]"

definition action :: "string \<Rightarrow> string \<Rightarrow> (string \<times> json) list \<Rightarrow> Action" where
  "action action_type rat params =
     (case (case map_of defaults action_type of None \<Rightarrow> (50, 50, False) | Some d \<Rightarrow> d) of
        (rsk, impact, rev_flag) \<Rightarrow>
          \<lparr>type = action_type, risk = rsk, expectedImpact = impact, reversible = rev_flag,
           parameters = params, rationale = rat\<rparr>)"

definition rollback_map :: "(string \<times> string) list" where
  "rollback_map =
     [(''BlockIp'', ''UnblockIp''),
      (''IsolateHost'', ''UnisolateHost''),
      (''DisableUser'', ''EnableUser'')]"

text \<open>
  The loop of \<^verbatim>\<open>_build_rollbacks\<close> over \<^verbatim>\<open>reversed(actions)\<close>, with the list built so far.
  \<^verbatim>\<open>if rollback_type\<close> holds for a found, non-empty name.
\<close>

fun rollbacks_loop :: "Action list \<Rightarrow> Action list \<Rightarrow> Action list" where
  "rollbacks_loop [] rollbacks = rollbacks"
| "rollbacks_loop (a # as) rollbacks =
     (case map_of rollback_map (type a) of
        None \<Rightarrow> rollbacks_loop as rollbacks
      | Some rollback_type \<Rightarrow>
          (if rollback_type \<noteq> []
           then rollbacks_loop as
                  (rollbacks @ [action rollback_type (''Rollback for '' @ type a) (parameters a)])
           else rollbacks_loop as rollbacks))"

definition build_rollbacks :: "Action list \<Rightarrow> Action list" where
  "build_rollbacks acts = rollbacks_loop (rev acts) []"

text \<open>The strategy ladder of \<^verbatim>\<open>_plan_from_rules\<close>.\<close>

definition select_strategy :: "int \<Rightarrow> real \<Rightarrow> int \<Rightarrow> bool \<Rightarrow> string" where
  "select_strategy severity confidence criticality privileged =
     (if confidence < 0.3 then ''ObserveMore''
      else if (criticality \<ge> 4 \<or> privileged) \<and> confidence < 0.85 then ''EscalateToHuman''
      else if confidence \<ge> 0.85 \<and> severity \<ge> 70 then ''ContainAndCollect''
      else if confidence \<ge> 0.6 \<and> severity \<ge> 50 then ''Contain''
      else ''NotifyOnly'')"

text \<open>The action list of \<^verbatim>\<open>_plan_from_rules\<close>, by strategy and the entities present.\<close>

definition strategy_actions :: "string \<Rightarrow> json \<Rightarrow> json \<Rightarrow> json \<Rightarrow> Action list" where
  "strategy_actions strat src_ip username host_id =
     (if strat = ''ObserveMore'' then
        [action ''OpenTicket'' ''Create a tracking ticket.'' []]
      else if strat = ''NotifyOnly'' then
        [action ''Notify'' ''Notify analysts.'' [],
         action ''OpenTicket'' ''Create a tracking ticket.'' []]
      else if strat = ''Contain'' \<or> strat = ''ContainAndCollect'' then
        (if truthy src_ip
         then [action ''BlockIp'' ''Block suspicious source IP.'' [(''src_ip'', src_ip)]] else [])
        @ (if truthy username
           then [action ''DisableUser'' ''Disable user account.'' [(''username'', username)]] else [])
        @ (if truthy host_id
           then [action ''IsolateHost'' ''Isolate host.'' [(''host_id'', host_id)]] else [])
        @ (if strat = ''ContainAndCollect''
           then [action ''CollectForensics'' ''Collect forensic artifacts.'' []] else [])
        @ [action ''OpenTicket'' ''Create a tracking ticket.'' []]
      else
        [action ''Notify'' ''Escalate to human analyst.'' [],
         action ''OpenTicket'' ''Create a tracking ticket.'' []])"

text \<open>
  \<^verbatim>\<open>_plan_from_rules\<close>. The four conversions at its head raise in this order; a raise is
  the \<open>Inl\<close> result.
\<close>

definition plan_from_rules :: "runtime \<Rightarrow> json \<Rightarrow> json \<Rightarrow> py_error + Plan" where
  "plan_from_rules rt alert assessment =
     (case obj_get assessment ''severity'' of Inl e \<Rightarrow> Inl e | Inr sev_raw \<Rightarrow>
      case py_int rt (py_or sev_raw (JInt 0)) of Inl e \<Rightarrow> Inl e | Inr severity \<Rightarrow>
      case obj_get assessment ''confidence'' of Inl e \<Rightarrow> Inl e | Inr conf_raw \<Rightarrow>
      case py_float rt (py_or conf_raw (JFloat 0.0)) of Inl e \<Rightarrow> Inl e | Inr confidence \<Rightarrow>
      case py_int rt (py_or (get_path alert ''context.assetCriticality'') (JInt 0)) of
        Inl e \<Rightarrow> Inl e | Inr criticality \<Rightarrow>
      (let privileged = truthy (py_or (get_path alert ''context.privileged'') (JBool False));
           src_ip = get_path alert ''entities.srcIp'';
           username = get_path alert ''entities.username'';
           host_id = py_or (get_path alert ''entities.hostId'') (get_path alert ''entities.hostname'');
           strat = select_strategy severity confidence criticality privileged;
           acts = strategy_actions strat src_ip username host_id;
           rollback_actions = build_rollbacks acts;
           prio = compute_priority severity confidence criticality;
           summ = ''Strategy='' @ strat @ '', Severity='' @ str_int severity
                    @ '', Confidence='' @ format_2f confidence;
           rat = [''Selected strategy '' @ strat @ '' based on confidence '' @ format_2f confidence
                    @ '' and severity '' @ str_int severity @ ''.'',
                  ''Asset criticality: '' @ str_int criticality @ ''; privileged identity: ''
                    @ str_bool privileged @ ''.'']
       in Inr \<lparr>planId = uuid4_hex rt, strategy = strat, priority = prio, summary = summ,
                actions = acts, rollbackActions = rollback_actions, plan_rationale = rat,
                tags = [(''environment'',
                           py_or (get_path alert ''context.environment'') (JStr ''unknown'')),
                        (''generatedAt'', JStr (now_iso rt))]\<rparr>))"

text \<open>
  A runtime for the worked examples; none of them converts a string to a number.
\<close>

definition demo_rt :: runtime where
  "demo_rt = \<lparr>uuid4_hex = ''3f2b8c1e9d4a4e0fb7a6c5d4e3f2a1b0'', now_iso = ''2026-01-01T00:00:00+00:00'',
     int_of_str = Map.empty, float_of_str = Map.empty\<rparr>"

definition demo_alert :: json where
  "demo_alert = JObj [(''context'', JObj [(''assetCriticality'', JInt 1), (''privileged'', JBool False)]),
                      (''entities'', JObj [(''srcIp'', JStr ''10.0.0.5'')])]"

definition demo_assessment :: json where
  "demo_assessment = JObj [(''severity'', JInt 80), (''confidence'', JFloat 0.9)]"



text \<open>Following the spec, section 4.3: the registered inverses.\<close>

definition registered_inverse :: "string \<Rightarrow> string option" where
  "registered_inverse t =
     (if t = ''BlockIp'' then Some ''UnblockIp''
      else if t = ''IsolateHost'' then Some ''UnisolateHost''
      else if t = ''DisableUser'' then Some ''EnableUser''
      else None)"

definition is_rollback_of :: "Action \<Rightarrow> Action \<Rightarrow> bool" where
  "is_rollback_of r a \<longleftrightarrow> registered_inverse (type a) = Some (type r) \<and> parameters r = parameters a"


definition demo_plan :: Plan where
  "demo_plan =
     \<lparr>planId = ''3f2b8c1e9d4a4e0fb7a6c5d4e3f2a1b0'', strategy = ''ContainAndCollect'', priority = 100,
      summary = ''Strategy=ContainAndCollect, Severity=80, Confidence=0.90'',
      actions = [action ''BlockIp'' ''Block suspicious source IP.'' [(''src_ip'', JStr ''10.0.0.5'')],
                 action ''CollectForensics'' ''Collect forensic artifacts.'' [],
                 action ''OpenTicket'' ''Create a tracking ticket.'' []],
      rollbackActions = [action ''UnblockIp'' ''Rollback for BlockIp'' [(''src_ip'', JStr ''10.0.0.5'')]],
      plan_rationale = [''Selected strategy ContainAndCollect based on confidence 0.90 and severity 80.'',
                   ''Asset criticality: 1; privileged identity: False.''],
      tags = [(''environment'', JStr ''unknown''), (''generatedAt'', JStr ''2026-01-01T00:00:00+00:00'')]\<rparr>"



section \<open>intelligence/scorers/rule.py\<close>

text \<open>
  \<^verbatim>\<open>str.lower()\<close> on the ASCII letters; every other character is left as it is.
\<close>

definition lower_char :: "char \<Rightarrow> char" where
  "lower_char c =
     (let n = (of_char c :: nat) in if 65 \<le> n \<and> n \<le> 90 then char_of (n + 32) else c)"

definition lower :: "string \<Rightarrow> string" where
  "lower s = map lower_char s"

text \<open>\<^verbatim>\<open>key in text\<close> on strings: \<^verbatim>\<open>key\<close> occurs in \<^verbatim>\<open>text\<close> as a contiguous piece.\<close>

fun starts_with :: "string \<Rightarrow> string \<Rightarrow> bool" where
  "starts_with t [] = True"
| "starts_with [] (k # ks) = False"
| "starts_with (c # cs) (k # ks) = (c = k \<and> starts_with cs ks)"

fun contains :: "string \<Rightarrow> string \<Rightarrow> bool" where
  "contains [] key = (key = [])"
| "contains (c # cs) key = (starts_with (c # cs) key \<or> contains cs key)"

text \<open>\<^verbatim>\<open>" ".join(parts)\<close>\<close>

fun join_space :: "string list \<Rightarrow> string" where
  "join_space [] = []"
| "join_space [p] = p"
| "join_space (p # q # ps) = p @ '' '' @ join_space (q # ps)"

text \<open>
  The items \<^verbatim>\<open>v or ""\<close> handed to \<^verbatim>\<open>join\<close>, which raises TypeError at an item that is not
  a string.
\<close>

fun str_items :: "json list \<Rightarrow> py_error + string list" where
  "str_items [] = Inr []"
| "str_items (v # vs) =
     (case py_or v (JStr '''') of
        JStr s \<Rightarrow> (case str_items vs of Inl e \<Rightarrow> Inl e | Inr ss \<Rightarrow> Inr (s # ss))
      | other \<Rightarrow> Inl TypeError)"

definition lower_text :: "json list \<Rightarrow> py_error + string" where
  "lower_text vals =
     (case str_items vals of Inl e \<Rightarrow> Inl e | Inr ss \<Rightarrow> Inr (lower (join_space ss)))"

text \<open>
  \<^verbatim>\<open>_score_rules\<close>: severity, confidence, hypothesis, evidence. A boolean is an instance of
  \<^verbatim>\<open>int\<close> in Python, with value 1 or 0.
\<close>

definition score_rules :: "json \<Rightarrow> py_error + (int \<times> real \<times> string \<times> string list)" where
  "score_rules alert =
     (let description = get_path alert ''ruleName'';
          alert_type = get_path alert ''type''
      in case lower_text [description, alert_type] of
           Inl e \<Rightarrow> Inl e
         | Inr text \<Rightarrow>
             if list_ex (\<lambda>key. contains text key) [''ransomware'', ''trojan'', ''malware'']
             then Inr (85, 0.85, ''Likely malware activity.'', [''keyword:malware''])
             else if list_ex (\<lambda>key. contains text key) [''brute force'', ''bruteforce'', ''failed login'']
             then Inr (60, 0.7, ''Possible brute-force attempts.'', [''keyword:bruteforce''])
             else if contains text ''port scan'' \<or> contains text ''scan''
             then Inr (55, 0.65, ''Possible scanning activity.'', [''keyword:scan''])
             else if contains text ''benign''
             then Inr (20, 0.2, ''Likely benign noise.'', [''keyword:benign''])
             else (case get_path alert ''severity'' of
                     JInt base \<Rightarrow>
                       Inr (min (max base 0) 100, 0.5, ''Severity-based assessment.'', [''source:severity''])
                   | JBool b \<Rightarrow>
                       Inr (min (max (if b then 1 else 0) 0) 100, 0.5, ''Severity-based assessment.'',
                            [''source:severity''])
                   | other \<Rightarrow> Inr (40, 0.5, ''Heuristic assessment.'', [''source:default''])))"

text \<open>\<^verbatim>\<open>RuleScorer.score\<close>: the four values as a dictionary.\<close>

definition RuleScorer_score :: "json \<Rightarrow> py_error + json" where
  "RuleScorer_score alert =
     (case score_rules alert of
        Inl e \<Rightarrow> Inl e
      | Inr (severity, confidence, hypothesis, evidence) \<Rightarrow>
          Inr (JObj [(''severity'', JInt severity),
                     (''confidence'', JFloat confidence),
                     (''hypothesis'', JStr hypothesis),
                     (''evidence'', JArr (map JStr evidence))]))"









section \<open>intelligence/planners/hybrid.py\<close>

text \<open>
  A planner is an object with a \<^verbatim>\<open>plan(alert, assessment)\<close> method that may call out to a
  model or a remote service: its answer can depend on, and change, the world \<open>'w\<close> outside
  the program, and it either returns a plan dictionary or raises. The raised values are
  instances of \<^verbatim>\<open>Exception\<close>, which is what \<^verbatim>\<open>except Exception\<close> catches.
\<close>

type_synonym 'w planner = "json \<Rightarrow> json \<Rightarrow> 'w \<Rightarrow> (py_error + json) \<times> 'w"

record 'w HybridPlanner =
  local_planner :: "'w planner"
  remote_planner :: "'w planner option"

definition HybridPlanner_plan :: "'w HybridPlanner \<Rightarrow> 'w planner" where
  "HybridPlanner_plan self alert assessment w =
     (case local_planner self alert assessment w of
        (Inr p, w1) \<Rightarrow> (Inr p, w1)
      | (Inl e, w1) \<Rightarrow>
          (case remote_planner self of
             Some remote \<Rightarrow>
               (case remote alert assessment w1 of
                  (Inr p, w2) \<Rightarrow> (Inr p, w2)
                | (Inl e2, w2) \<Rightarrow> local_planner self alert assessment w2)
           | None \<Rightarrow> local_planner self alert assessment w1))"

text \<open>
  Planners for the worked example. The world counts the calls made so far; the local
  planner fails on its first call and answers afterwards, the remote one always fails.
\<close>

definition flaky_local :: "nat planner" where
  "flaky_local alert assessment n =
     (if n = 0 then (Inl (OtherError ''model not loaded''), Suc n)
      else (Inr (JObj [(''strategy'', JStr ''NotifyOnly'')]), Suc n))"

definition failing_remote :: "nat planner" where
  "failing_remote alert assessment n = (Inl (OtherError ''connection refused''), Suc n)"

definition demo_hybrid :: "nat HybridPlanner" where
  "demo_hybrid = \<lparr>local_planner = flaky_local, remote_planner = Some failing_remote\<rparr>"



section \<open>intelligence/app.py\<close>

text \<open>The plan and action dictionaries that \<^verbatim>\<open>_plan_from_rules\<close> and \<^verbatim>\<open>_action\<close> build.\<close>

definition action_to_json :: "Action \<Rightarrow> json" where
  "action_to_json a =
     JObj [(''type'', JStr (type a)),
           (''risk'', JInt (risk a)),
           (''expectedImpact'', JInt (expectedImpact a)),
           (''reversible'', JBool (reversible a)),
           (''parameters'', JObj (parameters a)),
           (''rationale'', JStr (rationale a))]"

definition plan_to_json :: "Plan \<Rightarrow> json" where
  "plan_to_json p =
     JObj [(''planId'', JStr (planId p)),
           (''strategy'', JStr (strategy p)),
           (''priority'', JInt (priority p)),
           (''summary'', JStr (summary p)),
           (''actions'', JArr (map action_to_json (actions p))),
           (''rollbackActions'', JArr (map action_to_json (rollbackActions p))),
           (''rationale'', JArr (map JStr (plan_rationale p))),
           (''tags'', JObj (tags p))]"

definition RulePlanner_plan :: "runtime \<Rightarrow> json \<Rightarrow> json \<Rightarrow> py_error + json" where
  "RulePlanner_plan rt alert assessment = map_sum id plan_to_json (plan_from_rules rt alert assessment)"

text \<open>
  A scorer is an object with a \<^verbatim>\<open>score(alert)\<close> method; it returns a dictionary or \<^verbatim>\<open>None\<close>,
  or raises.
\<close>

type_synonym 'w scorer = "json \<Rightarrow> 'w \<Rightarrow> (py_error + json) \<times> 'w"

text \<open>The module state: \<^verbatim>\<open>_services\<close> after start-up, and \<^verbatim>\<open>_stats\<close>.\<close>

record 'w app =
  scorer :: "'w scorer"
  planner :: "'w planner"
  cache :: LruCache
  score_requests :: int
  plan_requests :: int

text \<open>
  \<^verbatim>\<open>_cache_key\<close> is \<^verbatim>\<open>json.dumps(alert, sort_keys=True, default=str)\<close>; the serializer of the
  standard library is the parameter \<open>dumps\<close>.
\<close>

definition cache_key :: "(json \<Rightarrow> string) \<Rightarrow> json \<Rightarrow> string" where
  "cache_key dumps alert = dumps alert"

definition fallback_score :: json where
  "fallback_score =
     JObj [(''severity'', JInt 40),
           (''confidence'', JFloat 0.5),
           (''hypothesis'', JStr ''fallback''),
           (''evidence'', JArr [JStr ''fallback''])]"

text \<open>
  The handler of \<^verbatim>\<open>POST /v1/score\<close>: the response or the exception, the module state and
  the world afterwards.
\<close>

definition score :: "(json \<Rightarrow> string) \<Rightarrow> 'w app \<Rightarrow> json \<Rightarrow> 'w \<Rightarrow> (py_error + json) \<times> 'w app \<times> 'w" where
  "score dumps st payload w =
     (case obj_get payload ''alert'' of Inl e \<Rightarrow> (Inl e, st, w) | Inr a \<Rightarrow>
      (let alert = py_or a (JObj []);
           st1 = st\<lparr>score_requests := score_requests st + 1\<rparr>;
           key = cache_key dumps alert;
           cached = (case fst (LruCache_get (cache st1) key) of None \<Rightarrow> JNull | Some v \<Rightarrow> v)
       in if truthy cached then (Inr cached, st1, w)
          else (case scorer st1 alert w of
                  (Inl e, w1) \<Rightarrow> (Inl e, st1, w1)
                | (Inr r, w1) \<Rightarrow>
                    (case (if r = JNull
                           then (case RuleScorer_score alert of
                                   Inl e \<Rightarrow> Inl e
                                 | Inr r2 \<Rightarrow> Inr (py_or r2 fallback_score))
                           else Inr r) of
                       Inl e \<Rightarrow> (Inl e, st1, w1)
                     | Inr result \<Rightarrow>
                         (case LruCache_set (cache st1) key result of
                            Inl e \<Rightarrow> (Inl e, st1, w1)
                          | Inr c \<Rightarrow> (Inr result, st1\<lparr>cache := c\<rparr>, w1))))))"

text \<open>
  The handler of \<^verbatim>\<open>POST /v1/plan\<close>. The runtime \<open>rt\<close> supplies the identifier and the clock
  reading of the \<^verbatim>\<open>RulePlanner\<close> call in the \<^verbatim>\<open>except\<close> branch.
\<close>

definition plan :: "runtime \<Rightarrow> 'w app \<Rightarrow> json \<Rightarrow> 'w \<Rightarrow> (py_error + json) \<times> 'w app \<times> 'w" where
  "plan rt st payload w =
     (case obj_get payload ''alert'' of Inl e \<Rightarrow> (Inl e, st, w) | Inr a \<Rightarrow>
      case obj_get payload ''assessment'' of Inl e \<Rightarrow> (Inl e, st, w) | Inr s \<Rightarrow>
      (let alert = py_or a (JObj []);
           assessment = py_or s (JObj []);
           st1 = st\<lparr>plan_requests := plan_requests st + 1\<rparr>
       in case planner st1 alert assessment w of
            (Inr p, w1) \<Rightarrow> (Inr (JObj [(''plan'', p)]), st1, w1)
          | (Inl e, w1) \<Rightarrow>
              (case RulePlanner_plan rt alert assessment of
                 Inl e2 \<Rightarrow> (Inl e2, st1, w1)
               | Inr p \<Rightarrow> (Inr (JObj [(''plan'', p)]), st1, w1))))"

text \<open>
  The worked example for the handlers. The serializer agrees with \<^verbatim>\<open>json.dumps\<close> on the
  one alert used; the planner and the scorer answer every call and count it in the world.
\<close>

definition scan_alert :: json where
  "scan_alert = JObj [(''ruleName'', JStr ''port scan'')]"

definition demo_dumps :: "json \<Rightarrow> string" where
  \<open>demo_dumps j = (if j = scan_alert then ''{"ruleName": "port scan"}'' else '''')\<close>

definition steady_planner :: "nat planner" where
  "steady_planner alert assessment n = (Inr (JObj [(''strategy'', JStr ''NotifyOnly'')]), Suc n)"

definition steady_scorer :: "nat scorer" where
  "steady_scorer alert n = (Inr (JObj [(''severity'', JInt 55)]), Suc n)"

definition cached_entry :: json where
  "cached_entry = JObj [(''strategy'', JStr ''ObserveMore'')]"

definition warm_app :: "nat app" where
  "warm_app = \<lparr>scorer = steady_scorer, planner = steady_planner,
     cache = \<lparr>max_size = 256, store = [demo_dumps scan_alert \<mapsto> cached_entry],
              order = [demo_dumps scan_alert]\<rparr>,
     score_requests = 0, plan_requests = 0\<rparr>"

definition cold_app :: "nat app" where
  "cold_app = \<lparr>scorer = steady_scorer, planner = steady_planner, cache = LruCache_init 256,
     score_requests = 0, plan_requests = 0\<rparr>"

definition plan_payload :: json where
  "plan_payload = JObj [(''alert'', scan_alert),
                        (''assessment'', JObj [(''severity'', JInt 55), (''confidence'', JFloat 0.65)])]"

section \<open>annotation_suggester.py\<close>

text \<open>
  A row of \<^verbatim>\<open>csv.DictReader\<close>: column name to cell text. A column that is missing, or that
  the reader filled with \<^verbatim>\<open>None\<close>, is absent from the map; every read of a row in this
  module treats the two alike. Strings are byte strings in UTF-8.
\<close>

type_synonym row = "string \<rightharpoonup> string"

text \<open>\<^verbatim>\<open>row.get(key, "") or ""\<close>\<close>

definition row_text :: "row \<Rightarrow> string \<Rightarrow> string" where
  "row_text r key = (case r key of None \<Rightarrow> '''' | Some s \<Rightarrow> s)"

text \<open>
  \<^verbatim>\<open>json.loads\<close> of the standard library is the parameter \<open>loads\<close>: the decoded value, or the
  exception it raises.
\<close>

definition parse_json_field :: "(string \<Rightarrow> py_error + json) \<Rightarrow> string \<Rightarrow> py_error + json" where
  "parse_json_field loads v =
     (if v = [] then Inr (JObj [])
      else (case loads v of
              Inr j \<Rightarrow> Inr j
            | Inl e \<Rightarrow> if e = JSONDecodeError then Inr (JObj []) else Inl e))"

definition text_contains_any :: "string \<Rightarrow> string list \<Rightarrow> bool" where
  "text_contains_any text keys =
     (let lowered = lower text in list_ex (\<lambda>keyword. contains lowered (lower keyword)) keys)"

definition text_contains_all :: "string \<Rightarrow> string list \<Rightarrow> bool" where
  "text_contains_all text keys =
     (let lowered = lower text in list_all (\<lambda>keyword. contains lowered (lower keyword)) keys)"

text \<open>
  Python \<^verbatim>\<open>==\<close> on decoded values: numbers and booleans compare by value, lists item by
  item, dictionaries key by key.
\<close>

fun num_val :: "json \<Rightarrow> real option" where
  "num_val (JBool b) = Some (if b then 1 else 0)"
| "num_val (JInt i) = Some (real_of_int i)"
| "num_val (JFloat r) = Some r"
| "num_val other = None"

function py_eq :: "json \<Rightarrow> json \<Rightarrow> bool" where
  "py_eq a b =
     (case (num_val a, num_val b) of
        (Some x, Some y) \<Rightarrow> x = y
      | (Some x, None) \<Rightarrow> False
      | (None, Some y) \<Rightarrow> False
      | (None, None) \<Rightarrow>
          (case (a, b) of
             (JNull, JNull) \<Rightarrow> True
           | (JStr s, JStr t) \<Rightarrow> s = t
           | (JArr xs, JArr ys) \<Rightarrow> list_all2 py_eq xs ys
           | (JObj kvs, JObj kws) \<Rightarrow>
               length kvs = length kws
               \<and> list_all (\<lambda>kv. case map_of kws (fst kv) of
                                   None \<Rightarrow> False
                                 | Some w \<Rightarrow> py_eq (snd kv) w) kvs
           | other \<Rightarrow> False))"
  by pat_completeness auto

termination py_eq
proof -
  have elem: "size x < Suc (size_list size xs)" if "x \<in> set xs" for x :: json and xs
    using that by (induction xs) auto
  have val: "size v < Suc (size_list (size_prod (\<lambda>x. 0) size) kvs)" if "(k, v) \<in> set kvs"
    for k :: string and v :: json and kvs
    using that by (induction kvs) auto
  show ?thesis
    by (relation "measure (\<lambda>(a, b). size a)") (auto simp: elem val)
qed

declare py_eq.simps [simp del]

text \<open>Lists and dictionaries cannot be dictionary keys: \<^verbatim>\<open>TypeError: unhashable type\<close>.\<close>

fun hashable :: "json \<Rightarrow> bool" where
  "hashable (JArr xs) = False"
| "hashable (JObj kvs) = False"
| "hashable other = True"

text \<open>
  The \<^verbatim>\<open>login_history\<close> dictionary, from agent identity to the last IP seen: \<^verbatim>\<open>history.get(k)\<close>
  and \<^verbatim>\<open>history[k] = v\<close>. An assignment to a key that is present keeps the key and its
  position.
\<close>

type_synonym history = "(json \<times> json) list"

fun history_get :: "history \<Rightarrow> json \<Rightarrow> json" where
  "history_get [] k = JNull"
| "history_get ((k', v) # rest) k = (if py_eq k' k then v else history_get rest k)"

fun history_set :: "history \<Rightarrow> json \<Rightarrow> json \<Rightarrow> history" where
  "history_set [] k v = [(k, v)]"
| "history_set ((k', v') # rest) k v =
     (if py_eq k' k then (k', v) # rest else (k', v') # history_set rest k v)"

text \<open>
  The correlation context of one scan: a dictionary that holds the key
  \<^verbatim>\<open>"login_history"\<close> once the matcher has run \<^verbatim>\<open>setdefault\<close>.
\<close>

record correlation_context =
  login_history :: "history option"

definition empty_context :: correlation_context where
  "empty_context = \<lparr>login_history = None\<rparr>"

text \<open>
  \<^verbatim>\<open>login_geo_matcher\<close>: whether the record matches, and the context it leaves. The \<^verbatim>\<open>rule\<close>
  and \<^verbatim>\<open>log_text\<close> arguments are not used.
\<close>

definition login_geo_matcher ::
  "(string \<Rightarrow> py_error + json) \<Rightarrow> row \<Rightarrow> correlation_context \<Rightarrow> py_error + (bool \<times> correlation_context)" where
  "login_geo_matcher loads r ctx =
     (case parse_json_field loads (row_text r ''agent'') of Inl e \<Rightarrow> Inl e | Inr agent_data \<Rightarrow>
      case obj_get agent_data ''id'' of Inl e \<Rightarrow> Inl e | Inr id_val \<Rightarrow>
      case (if truthy id_val then Inr id_val else obj_get agent_data ''name'') of
        Inl e \<Rightarrow> Inl e | Inr agent_id \<Rightarrow>
      case obj_get agent_data ''ip'' of Inl e \<Rightarrow> Inl e | Inr ip \<Rightarrow>
      if \<not> truthy agent_id \<or> \<not> truthy ip then Inr (False, ctx)
      else (let hist = (case login_history ctx of None \<Rightarrow> [] | Some h \<Rightarrow> h)
            in if \<not> hashable agent_id then Inl TypeError
               else (let previous_ip = history_get hist agent_id
                     in if truthy previous_ip \<and> \<not> py_eq previous_ip ip
                        then Inr (True, ctx\<lparr>login_history := Some (history_set hist agent_id ip)\<rparr>)
                        else Inr (False, ctx\<lparr>login_history := Some (history_set hist agent_id ip)\<rparr>))))"

text \<open>
  A heuristic of the catalog. A key the dictionary lacks is \<open>None\<close>, or the empty list for
  the keyword lists, which the code reads with \<^verbatim>\<open>heur.get(...)\<close> and tests for truth.
\<close>

record heur =
  name :: string
  matcher :: "string option"
  match_fields :: "string list"
  heur_keywords :: "string list"
  all_keywords :: "string list"
  exclude_keywords :: "string list"
  detection_goal :: "string option"
  severity :: "string option"
  example_completion :: "string option"

text \<open>\<^verbatim>\<open>rule.get("description", "") if rule else ""\<close>\<close>

definition description_of :: "json \<Rightarrow> py_error + json" where
  "description_of rule =
     (if truthy rule
      then (case rule of
              JObj kvs \<Rightarrow> Inr (case map_of kvs ''description'' of None \<Rightarrow> JStr '''' | Some d \<Rightarrow> d)
            | other \<Rightarrow> Inl AttributeError)
      else Inr (JStr ''''))"

text \<open>
  The loop of \<^verbatim>\<open>match_heuristic\<close> over the match fields. \<^verbatim>\<open>field_text.lower()\<close> raises
  AttributeError when the description is not a string.
\<close>

fun fields_loop :: "row \<Rightarrow> json \<Rightarrow> heur \<Rightarrow> string list \<Rightarrow> py_error + bool" where
  "fields_loop r description h [] = Inr False"
| "fields_loop r description h (field # rest) =
     (case (if field = ''rule'' then Inr (row_text r ''rule'')
            else if field = ''description''
            then (case description of JStr s \<Rightarrow> Inr s | other \<Rightarrow> Inl AttributeError)
            else if field = ''full_log'' then Inr (row_text r ''full_log'')
            else Inr (row_text r field)) of
        Inl e \<Rightarrow> Inl e
      | Inr raw \<Rightarrow>
          (let field_text = lower raw
           in if exclude_keywords h \<noteq> [] \<and> text_contains_any field_text (exclude_keywords h)
              then fields_loop r description h rest
              else if all_keywords h \<noteq> [] \<and> \<not> text_contains_all field_text (all_keywords h)
              then fields_loop r description h rest
              else if heur_keywords h \<noteq> [] \<and> text_contains_any field_text (heur_keywords h)
              then Inr True
              else fields_loop r description h rest))"

definition match_heuristic ::
  "(string \<Rightarrow> py_error + json) \<Rightarrow> row \<Rightarrow> json \<Rightarrow> heur \<Rightarrow> correlation_context \<Rightarrow> py_error + (bool \<times> correlation_context)" where
  "match_heuristic loads r rule h ctx =
     (case description_of rule of Inl e \<Rightarrow> Inl e | Inr description \<Rightarrow>
      (case matcher h of
         Some matcher_name \<Rightarrow>
           if matcher_name \<noteq> [] then
             (if matcher_name = ''login_geo_matcher'' then login_geo_matcher loads r ctx
              else Inr (False, ctx))
           else map_sum id (\<lambda>b. (b, ctx)) (fields_loop r description h (match_fields h))
       | None \<Rightarrow> map_sum id (\<lambda>b. (b, ctx)) (fields_loop r description h (match_fields h))))"

record candidate =
  dataset_id :: "string option"
  timestamp :: "string option"
  heuristic :: string
  cand_severity :: string
  cand_detection_goal :: "string option"
  rule_description :: json
  log_excerpt :: string
  cand_example_completion :: "string option"

definition build_candidate :: "row \<Rightarrow> heur \<Rightarrow> json \<Rightarrow> py_error + candidate" where
  "build_candidate r h rule =
     (case description_of rule of Inl e \<Rightarrow> Inl e | Inr d \<Rightarrow>
        Inr \<lparr>dataset_id = r ''id'',
             timestamp = r ''timestamp'',
             heuristic = name h,
             cand_severity = (case severity h of None \<Rightarrow> ''info'' | Some s \<Rightarrow> s),
             cand_detection_goal = detection_goal h,
             rule_description = d,
             log_excerpt = take 200 (row_text r ''full_log''),
             cand_example_completion = example_completion h\<rparr>)"

text \<open>
  The local state of \<^verbatim>\<open>scan_logs\<close>: the candidates, the per-name counts (a
  \<^verbatim>\<open>defaultdict(int)\<close>) and the context.
\<close>

record scan_state =
  candidates :: "candidate list"
  counts :: "string \<Rightarrow> int"
  ctx :: correlation_context

text \<open>The body of the inner loop, for one heuristic.\<close>

definition heur_step ::
  "(string \<Rightarrow> py_error + json) \<Rightarrow> int \<Rightarrow> row \<Rightarrow> json \<Rightarrow> scan_state \<Rightarrow> heur \<Rightarrow> py_error + scan_state" where
  "heur_step loads limit_per_heuristic r rule st h =
     (if limit_per_heuristic > 0 \<and> counts st (name h) \<ge> limit_per_heuristic then Inr st
      else (case match_heuristic loads r rule h (ctx st) of
              Inl e \<Rightarrow> Inl e
            | Inr (matched, c) \<Rightarrow>
                if matched
                then (case build_candidate r h rule of
                        Inl e \<Rightarrow> Inl e
                      | Inr cand \<Rightarrow>
                          Inr (st\<lparr>candidates := candidates st @ [cand],
                                  counts := (counts st)(name h := counts st (name h) + 1),
                                  ctx := c\<rparr>))
                else Inr (st\<lparr>ctx := c\<rparr>)))"

fun heurs_loop ::
  "(string \<Rightarrow> py_error + json) \<Rightarrow> int \<Rightarrow> row \<Rightarrow> json \<Rightarrow> scan_state \<Rightarrow> heur list \<Rightarrow> py_error + scan_state" where
  "heurs_loop loads cap r rule st [] = Inr st"
| "heurs_loop loads cap r rule st (h # hs) =
     (case heur_step loads cap r rule st h of
        Inl e \<Rightarrow> Inl e
      | Inr st' \<Rightarrow> heurs_loop loads cap r rule st' hs)"

fun rows_loop ::
  "(string \<Rightarrow> py_error + json) \<Rightarrow> heur list \<Rightarrow> int \<Rightarrow> scan_state \<Rightarrow> row list \<Rightarrow> py_error + scan_state" where
  "rows_loop loads heuristics cap st [] = Inr st"
| "rows_loop loads heuristics cap st (r # rs) =
     (case parse_json_field loads (row_text r ''rule'') of
        Inl e \<Rightarrow> Inl e
      | Inr rule \<Rightarrow>
          (case heurs_loop loads cap r rule st heuristics of
             Inl e \<Rightarrow> Inl e
           | Inr st' \<Rightarrow> rows_loop loads heuristics cap st' rs))"

text \<open>
  The scan over the rows the CSV reader yields, with the catalog as a parameter; the whole
  final state, of which \<^verbatim>\<open>scan_logs\<close> returns the candidates.
\<close>

definition scan_run ::
  "(string \<Rightarrow> py_error + json) \<Rightarrow> heur list \<Rightarrow> row list \<Rightarrow> int \<Rightarrow> py_error + scan_state" where
  "scan_run loads heuristics rows limit_per_heuristic =
     rows_loop loads heuristics limit_per_heuristic
       \<lparr>candidates = [], counts = (\<lambda>n. 0), ctx = empty_context\<rparr> rows"

text \<open>The catalog \<^verbatim>\<open>HEURISTICS\<close>, in its order.\<close>

definition HEURISTICS :: "heur list" where
  \<open>HEURISTICS =
     [
      \<lparr>name = ''noise_auth_success'',
       matcher = None,
       match_fields = [''rule''],
       heur_keywords = [''authentication success'', ''Windows logon success''],
       all_keywords = [],
       exclude_keywords = [],
       detection_goal = Some (''Treat this Windows authentication success as routine noise before raising the alert again.''),
       severity = Some (''noise''),
       example_completion = Some (''<group name="noise"><rule id="100000" level="1"><description>Routine authentication success</description></rule></group>'')\<rparr>,
      \<lparr>name = ''powershell_usage'',
       matcher = None,
       match_fields = [''rule'', ''full_log''],
       heur_keywords = [''powershell'', ''.ps1'', ''.psm1''],
       all_keywords = [],
       exclude_keywords = [],
       detection_goal = Some (''Flag PowerShell activity, since PowerShell usage often indicates script-based abuse in your environment.''),
       severity = Some (''high''),
       example_completion = Some (''<group name="custom_sysmon_rules,process_injection"><rule id="100650" level="12"><description>Suspicious PowerShell invocation</description></rule></group>'')\<rparr>,
      \<lparr>name = ''ssl_usage'',
       matcher = None,
       match_fields = [''rule'', ''full_log''],
       heur_keywords = [''ssl'', ''tls'', ''https://'', ''443''],
       all_keywords = [],
       exclude_keywords = [],
       detection_goal = Some (''Investigate SSL/TLS usage that might be hiding command-and-control or data exfiltration.''),
       severity = Some (''medium''),
       example_completion = Some (''<group name="custom_windows_rules,network"><rule id="100651" level="10"><description>Unusual SSL/TLS traffic</description></rule></group>'')\<rparr>,
      \<lparr>name = ''root_execution'',
       matcher = None,
       match_fields = [''full_log''],
       heur_keywords = [''user=root'', ''sudo'', ''run as root''],
       all_keywords = [],
       exclude_keywords = [],
       detection_goal = Some (''High alert when root executes a program'' @ [CHR 0xE2, CHR 0x80, CHR 0x94] @ ''track what commands are being issued as root.''),
       severity = Some (''critical''),
       example_completion = Some (''<group name="custom_unix_rules,root"><rule id="100652" level="13"><description>Program execution as root</description></rule></group>'')\<rparr>,
      \<lparr>name = ''remote_access'',
       matcher = None,
       match_fields = [''rule'', ''full_log''],
       heur_keywords = [''remote shell'', ''remote access'', ''sshd'', ''rdesktop'', ''mstsc'', ''winrm'', ''remote desktop''],
       all_keywords = [],
       exclude_keywords = [],
       detection_goal = Some (''Treat remote access sessions as high risk until verified, especially when they appear without prior authorization.''),
       severity = Some (''high''),
       example_completion = Some (''<group name="local,remote_access"><rule id="100660" level="13"><description>Unusual remote access activity</description></rule></group>'')\<rparr>,
      \<lparr>name = ''copy_sensitive'',
       matcher = None,
       match_fields = [''full_log''],
       heur_keywords = [''/etc/passwd'', ''/etc/shadow'', ''/etc/group''],
       all_keywords = [],
       exclude_keywords = [],
       detection_goal = Some (''Copying sensitive files (passwd/shadow/group) should raise a high alert even if the copy command looks normal.''),
       severity = Some (''high''),
       example_completion = Some (''<group name="custom_unix_rules,syscheck"><rule id="100653" level="13"><description>Copy of sensitive credential files</description></rule></group>'')\<rparr>,
      \<lparr>name = ''unsigned_install'',
       matcher = None,
       match_fields = [''rule'', ''full_log''],
       heur_keywords = [''installation completed'', ''installed product''],
       all_keywords = [],
       exclude_keywords = [''signed'', ''Microsoft'', ''verified''],
       detection_goal = Some (''Treat installs without a signature or vendor stamp as high risk.''),
       severity = Some (''high''),
       example_completion = Some (''<group name="local,software_install"><rule id="100654" level="12"><description>Unsigned installer executed</description></rule></group>'')\<rparr>,
      \<lparr>name = ''signed_install'',
       matcher = None,
       match_fields = [''rule'', ''full_log''],
       heur_keywords = [''signed by'', ''verified'', ''digital signature''],
       all_keywords = [],
       exclude_keywords = [],
       detection_goal = Some (''Signed installs are mid/low priority but worth auditing for unexpected binaries.''),
       severity = Some (''medium''),
       example_completion = Some (''<group name="local,software_install"><rule id="100655" level="8"><description>Signed installer seen</description></rule></group>'')\<rparr>,
      \<lparr>name = ''self_signed'',
       matcher = None,
       match_fields = [''rule'', ''full_log''],
       heur_keywords = [''self-signed'', ''self signed''],
       all_keywords = [],
       exclude_keywords = [],
       detection_goal = Some (''Self-signed binaries/certificates are suspicious; track the origin.''),
       severity = Some (''high''),
       example_completion = Some (''<group name="local,software_install"><rule id="100656" level="12"><description>Self-signed binary detected</description></rule></group>'')\<rparr>,
      \<lparr>name = ''login_geo_anomaly'',
       matcher = Some (''login_geo_matcher''),
       match_fields = [],
       heur_keywords = [],
       all_keywords = [],
       exclude_keywords = [],
       detection_goal = Some (''Raise a very high alert when the same account authenticates from differing IPs within a short period.''),
       severity = Some (''critical''),
       example_completion = Some (''<group name="custom_windows_rules,authentication"><rule id="100657" level="14"><description>Account used from multiple locations quickly</description></rule></group>'')\<rparr>,
      \<lparr>name = ''privilege_escalation'',
       matcher = None,
       match_fields = [''rule'', ''full_log''],
       heur_keywords = [''privilege escalation'', ''Privilege Escalation''],
       all_keywords = [],
       exclude_keywords = [],
       detection_goal = Some (''Confirm whether this privilege escalation alert is real or just noise from scripted activity.''),
       severity = Some (''high''),
       example_completion = Some (''<group name="local,sudo"><rule id="100658" level="13"><description>Privilege escalation activity</description></rule></group>'')\<rparr>,
      \<lparr>name = ''rootcheck_trojan'',
       matcher = None,
       match_fields = [''rule'', ''full_log''],
       heur_keywords = [''rootcheck'', ''trojaned version''],
       all_keywords = [],
       exclude_keywords = [],
       detection_goal = Some (''Treat Trojaned system utilities flagged by rootcheck as high-risk detections.''),
       severity = Some (''high''),
       example_completion = Some (''<group name="custom_rules,rootcheck"><rule id="100659" level="12"><description>Rootcheck reported trojaned binary</description></rule></group>'')\<rparr>
     ]\<close>

definition scan_logs ::
  "(string \<Rightarrow> py_error + json) \<Rightarrow> row list \<Rightarrow> int \<Rightarrow> py_error + candidate list" where
  "scan_logs loads rows limit_per_heuristic =
     map_sum id candidates (scan_run loads HEURISTICS rows limit_per_heuristic)"

text \<open>
  The worked example for the scan. The decoder agrees with \<^verbatim>\<open>json.loads\<close> on the three agent
  cells used and on the cell \<^verbatim>\<open>{broken\<close>, which is not JSON. The three rows carry one agent
  identity with three different addresses.
\<close>

definition demo_loads :: "string \<Rightarrow> py_error + json" where
  \<open>demo_loads s =
     (if s = ''{"id": "a1", "ip": "1.1.1.1"}''
      then Inr (JObj [(''id'', JStr ''a1''), (''ip'', JStr ''1.1.1.1'')])
      else if s = ''{"id": "a1", "ip": "2.2.2.2"}''
      then Inr (JObj [(''id'', JStr ''a1''), (''ip'', JStr ''2.2.2.2'')])
      else if s = ''{"id": "a1", "ip": "3.3.3.3"}''
      then Inr (JObj [(''id'', JStr ''a1''), (''ip'', JStr ''3.3.3.3'')])
      else Inl JSONDecodeError)\<close>

definition geo_rows :: "row list" where
  \<open>geo_rows =
     [map_of [(''id'', ''1''), (''agent'', ''{"id": "a1", "ip": "1.1.1.1"}'')],
      map_of [(''id'', ''2''), (''agent'', ''{"id": "a1", "ip": "2.2.2.2"}'')],
      map_of [(''id'', ''3''), (''agent'', ''{"id": "a1", "ip": "3.3.3.3"}'')]]\<close>


text \<open>A heuristic is stateful when it names a custom matcher.\<close>

definition stateful :: "heur \<Rightarrow> bool" where
  "stateful h \<longleftrightarrow> (case matcher h of None \<Rightarrow> False | Some m \<Rightarrow> m \<noteq> [])"

text \<open>The rule has reached its cap in a scan state.\<close>

definition capped :: "int \<Rightarrow> scan_state \<Rightarrow> heur \<Rightarrow> bool" where
  "capped cap st h \<longleftrightarrow> cap > 0 \<and> counts st (name h) \<ge> cap"

text \<open>
  The state-only pass: the matcher of every heuristic run on every record in scan order,
  with no counts and no cap.
\<close>

fun track_heurs ::
  "(string \<Rightarrow> py_error + json) \<Rightarrow> row \<Rightarrow> json \<Rightarrow> correlation_context \<Rightarrow> heur list
     \<Rightarrow> py_error + correlation_context" where
  "track_heurs loads r rule c [] = Inr c"
| "track_heurs loads r rule c (h # hs) =
     (case match_heuristic loads r rule h c of
        Inl e \<Rightarrow> Inl e
      | Inr (m, c') \<Rightarrow> track_heurs loads r rule c' hs)"

fun track_rows ::
  "(string \<Rightarrow> py_error + json) \<Rightarrow> heur list \<Rightarrow> correlation_context \<Rightarrow> row list
     \<Rightarrow> py_error + correlation_context" where
  "track_rows loads heuristics c [] = Inr c"
| "track_rows loads heuristics c (r # rs) =
     (case parse_json_field loads (row_text r ''rule'') of
        Inl e \<Rightarrow> Inl e
      | Inr rule \<Rightarrow>
          (case track_heurs loads r rule c heuristics of
             Inl e \<Rightarrow> Inl e
           | Inr c' \<Rightarrow> track_rows loads heuristics c' rs))"

definition capped_state :: scan_state where
  "capped_state =
     \<lparr>candidates = [],
      counts = (\<lambda>n. if n = ''login_geo_anomaly'' then 1 else 0),
      ctx = \<lparr>login_history = Some [(JStr ''a1'', JStr ''2.2.2.2'')]\<rparr>\<rparr>"

section \<open>Properties of the bounded result cache\<close>

lemma evict_fits: "int (length ord) \<le> ms \<Longrightarrow> evict ms st ord = Inr (st, ord)"
  by (cases ord) auto

lemma evict_one:
  "0 < ms \<Longrightarrow> int (length ord) = ms \<Longrightarrow>
   evict ms st (ord @ [k]) = Inr (st(hd ord := None), tl ord @ [k])"
  by (cases ord) (auto simp: evict_fits)

lemma set_fresh_room:
  assumes "cache_wf c" "0 < max_size c" "store c k = None" "int (length (order c)) < max_size c"
  shows "LruCache_set c k v = Inr (c\<lparr>store := (store c)(k \<mapsto> v), order := order c @ [k]\<rparr>)"
  using assms by (simp add: LruCache_set_def evict_fits)

lemma set_fresh_full:
  assumes "cache_wf c" "0 < max_size c" "store c k = None" "\<not> int (length (order c)) < max_size c"
  shows "LruCache_set c k v =
     Inr (c\<lparr>store := ((store c)(k \<mapsto> v))(hd (order c) := None), order := tl (order c) @ [k]\<rparr>)"
proof -
  from assms have "int (length (order c)) = max_size c" by (simp add: cache_wf_def)
  then show ?thesis using assms by (simp add: LruCache_set_def evict_one)
qed

lemma set_existing:
  assumes "0 < max_size c" "store c k \<noteq> None"
  shows "LruCache_set c k v = Inr (c\<lparr>store := (store c)(k \<mapsto> v)\<rparr>)"
  using assms by (simp add: LruCache_set_def)

lemma wf_init: "cache_wf (LruCache_init n)"
  by (simp add: cache_wf_def LruCache_init_def)

lemma set_wf:
  assumes "cache_wf c"
  shows "\<exists>c'. LruCache_set c k v = Inr c' \<and> cache_wf c' \<and> max_size c' = max_size c"
proof (cases "max_size c \<le> 0")
  case True
  then show ?thesis using assms by (simp add: LruCache_set_def)
next
  case pos: False
  show ?thesis
  proof (cases "store c k = None")
    case False
    then have "k \<in> dom (store c)" by auto
    then have "insert k (dom (store c)) = dom (store c)" by auto
    then show ?thesis using pos False assms
      by (simp add: set_existing cache_wf_def)
  next
    case fresh: True
    then have knot: "k \<notin> set (order c)" using assms by (auto simp: cache_wf_def)
    show ?thesis
    proof (cases "int (length (order c)) < max_size c")
      case True
      then show ?thesis using pos fresh assms knot
        by (simp add: set_fresh_room) (auto simp: cache_wf_def)
    next
      case False
      then have len: "int (length (order c)) = max_size c" using assms by (simp add: cache_wf_def)
      with pos obtain x xs where ox: "order c = x # xs" by (cases "order c") auto
      have "x \<notin> set xs" "distinct xs" "set (x # xs) = dom (store c)"
        using assms ox by (auto simp: cache_wf_def)
      then have "set (xs @ [k]) = dom (((store c)(k \<mapsto> v))(x := None))"
        using knot ox by auto
      then show ?thesis using pos fresh assms knot False ox len
        by (simp add: set_fresh_full) (auto simp: cache_wf_def)
    qed
  qed
qed

lemma set_all_wf:
  "cache_wf c \<Longrightarrow> \<exists>c'. set_all c kvs = Inr c' \<and> cache_wf c' \<and> max_size c' = max_size c"
proof (induction kvs arbitrary: c)
  case Nil
  then show ?case by simp
next
  case (Cons kv kvs)
  obtain k v where kv: "kv = (k, v)" by (cases kv)
  from set_wf[OF Cons.prems, of k v] obtain c1 where
    c1: "LruCache_set c k v = Inr c1" "cache_wf c1" "max_size c1 = max_size c" by blast
  from Cons.IH[OF c1(2)] c1 kv show ?case by auto
qed

lemma set_all_append:
  "set_all c (xs @ ys) = (case set_all c xs of Inl e \<Rightarrow> Inl e | Inr c' \<Rightarrow> set_all c' ys)"
  by (induction xs arbitrary: c) (auto split: sum.splits)

lemma fresh_inserts:
  assumes "1 \<le> cap" "distinct (map fst kvs)"
  shows "\<exists>c. set_all (LruCache_init cap) kvs = Inr c \<and> max_size c = cap
            \<and> order c = drop (length kvs - nat cap) (map fst kvs)
            \<and> store c = (\<lambda>k. if k \<in> set (order c) then map_of kvs k else None)"
  using assms(2)
proof (induction kvs rule: rev_induct)
  case Nil
  then show ?case using assms(1) by (simp add: LruCache_init_def)
next
  case (snoc kv kvs)
  obtain k v where kv: "kv = (k, v)" by (cases kv)
  from snoc.prems have dk: "distinct (map fst kvs)" and kfresh: "k \<notin> fst ` set kvs"
    by (auto simp: kv)
  from snoc.IH[OF dk] obtain c where
    c: "set_all (LruCache_init cap) kvs = Inr c" "max_size c = cap"
       "order c = drop (length kvs - nat cap) (map fst kvs)"
       "store c = (\<lambda>k. if k \<in> set (order c) then map_of kvs k else None)" by blast
  have wf: "cache_wf c" using set_all_wf[OF wf_init, of cap kvs] c(1) by auto
  have pos: "0 < max_size c" using c(2) assms(1) by simp
  have knot: "k \<notin> set (order c)"
    using kfresh c(3) by (auto dest!: in_set_dropD)
  then have kNone: "store c k = None" using c(4) by simp
  have mo: "\<And>x. x \<noteq> k \<Longrightarrow> map_of (kvs @ [(k, v)]) x = map_of kvs x"
    by (simp add: map_add_def split: option.splits)
  have mk: "map_of (kvs @ [(k, v)]) k = Some v"
  proof -
    from kfresh have "map_of kvs k = None" by (simp add: map_of_eq_None_iff)
    then show ?thesis by (simp add: map_add_def)
  qed
  show ?case
  proof (cases "int (length (order c)) < max_size c")
    case True
    then have short: "length kvs < nat cap" using c(2,3) by auto
    let ?c' = "c\<lparr>store := (store c)(k \<mapsto> v), order := order c @ [k]\<rparr>"
    have s: "LruCache_set c k v = Inr ?c'" by (rule set_fresh_room[OF wf pos kNone True])
    have o: "order ?c' = drop (length (kvs @ [kv]) - nat cap) (map fst (kvs @ [kv]))"
      using short c(3) by (simp add: kv)
    have st: "store ?c' = (\<lambda>x. if x \<in> set (order ?c') then map_of (kvs @ [kv]) x else None)"
      using c(4) knot mk mo by (auto simp: kv fun_eq_iff)
    show ?thesis using c(1,2) s o st by (simp add: set_all_append kv)
  next
    case False
    then have full: "nat cap \<le> length kvs" using c(2,3) by auto
    have len: "length (order c) = nat cap" using full c(3) by simp
    then obtain x xs where ox: "order c = x # xs" using assms(1) by (cases "order c") auto
    have dist: "x \<notin> set xs" using wf ox by (auto simp: cache_wf_def)
    let ?c' = "c\<lparr>store := ((store c)(k \<mapsto> v))(hd (order c) := None), order := tl (order c) @ [k]\<rparr>"
    have s: "LruCache_set c k v = Inr ?c'" by (rule set_fresh_full[OF wf pos kNone False])
    have "tl (order c) = drop (Suc (length kvs - nat cap)) (map fst kvs)"
      using c(3) by (simp add: drop_Suc drop_tl)
    then have o: "order ?c' = drop (length (kvs @ [kv]) - nat cap) (map fst (kvs @ [kv]))"
      using full assms(1) by (simp add: kv Suc_diff_le)
    have st: "store ?c' = (\<lambda>y. if y \<in> set (order ?c') then map_of (kvs @ [kv]) y else None)"
      using c(4) knot mk mo ox dist by (auto simp: kv fun_eq_iff)
    show ?thesis using c(1,2) s o st by (simp add: set_all_append kv)
  qed
qed

text \<open>
  Claim C3. For every capacity of at least one, inserting capacity + 1 entries with
  distinct keys into a fresh cache leaves the first key missing and the last key present.
  For every cache reached from a fresh one by \<^verbatim>\<open>set\<close> calls: setting a new key appends it
  to the order list and, when the cache was full, removes exactly the head of the order
  list (the oldest inserted key) from both the order list and the store; setting a key
  that is present replaces its value and leaves the order list as it is; \<^verbatim>\<open>get\<close> leaves
  the cache as it is.
\<close>

theorem LruCache_insertion_order_eviction:
  assumes reach: "set_all (LruCache_init n) hist = Inr c"
  shows "(1 \<le> cap \<and> distinct (map fst kvs) \<and> length kvs = nat cap + 1 \<longrightarrow>
           (\<exists>c'. set_all (LruCache_init cap) kvs = Inr c'
              \<and> fst (LruCache_get c' (fst (hd kvs))) = None
              \<and> fst (LruCache_get c' (fst (last kvs))) = Some (snd (last kvs))))
       \<and> (0 < max_size c \<and> store c k = None \<longrightarrow>
           (\<exists>c'. LruCache_set c k v = Inr c' \<and>
              (if int (length (order c)) < max_size c
               then order c' = order c @ [k] \<and> store c' = (store c)(k \<mapsto> v)
               else order c' = tl (order c) @ [k]
                  \<and> store c' = ((store c)(k \<mapsto> v))(hd (order c) := None)
                  \<and> hd (order c) \<in> dom (store c)
                  \<and> dom (store c') = insert k (dom (store c) - {hd (order c)}))))
       \<and> (0 < max_size c \<and> store c k \<noteq> None \<longrightarrow>
           (\<exists>c'. LruCache_set c k v = Inr c' \<and> order c' = order c
              \<and> store c' = (store c)(k \<mapsto> v)))
       \<and> snd (LruCache_get c k) = c"
proof -
  have wf: "cache_wf c" using set_all_wf[OF wf_init, of n hist] reach by auto
  have law: "\<exists>c'. set_all (LruCache_init cap) kvs = Inr c'
              \<and> fst (LruCache_get c' (fst (hd kvs))) = None
              \<and> fst (LruCache_get c' (fst (last kvs))) = Some (snd (last kvs))"
    if cap: "1 \<le> cap" and d: "distinct (map fst kvs)" and len: "length kvs = nat cap + 1"
  proof -
    from fresh_inserts[OF cap d] obtain c' where
      c': "set_all (LruCache_init cap) kvs = Inr c'"
          "order c' = drop (length kvs - nat cap) (map fst kvs)"
          "store c' = (\<lambda>k. if k \<in> set (order c') then map_of kvs k else None)" by blast
    from len obtain kv rest where kvs: "kvs = kv # rest" by (cases kvs) auto
    have o: "order c' = map fst rest" using c'(2) len kvs by simp
    have "fst kv \<notin> set (map fst rest)" using d kvs by simp
    then have miss: "store c' (fst (hd kvs)) = None" using c'(3) o kvs by simp
    from len cap have ne: "rest \<noteq> []" using kvs by auto
    then have lastin: "last kvs \<in> set rest" using kvs by auto
    then have "fst (last kvs) \<in> set (order c')" using o by auto
    moreover have "map_of kvs (fst (last kvs)) = Some (snd (last kvs))"
      using d lastin kvs by (intro map_of_is_SomeI) auto
    ultimately have hit: "store c' (fst (last kvs)) = Some (snd (last kvs))"
      using c'(3) by simp
    show ?thesis using c'(1) miss hit by (auto simp: LruCache_get_def)
  qed
  have ev: "\<exists>c'. LruCache_set c k v = Inr c' \<and>
              (if int (length (order c)) < max_size c
               then order c' = order c @ [k] \<and> store c' = (store c)(k \<mapsto> v)
               else order c' = tl (order c) @ [k]
                  \<and> store c' = ((store c)(k \<mapsto> v))(hd (order c) := None)
                  \<and> hd (order c) \<in> dom (store c)
                  \<and> dom (store c') = insert k (dom (store c) - {hd (order c)}))"
    if pos: "0 < max_size c" and fresh: "store c k = None"
  proof (cases "int (length (order c)) < max_size c")
    case True
    then show ?thesis using set_fresh_room[OF wf pos fresh True, of v] by simp
  next
    case False
    then have "order c \<noteq> []" using pos by auto
    then have hdin: "hd (order c) \<in> dom (store c)" using wf by (auto simp: cache_wf_def)
    have "hd (order c) \<noteq> k" using hdin fresh by auto
    then have "dom (((store c)(k \<mapsto> v))(hd (order c) := None))
        = insert k (dom (store c) - {hd (order c)})" by auto
    then show ?thesis using set_fresh_full[OF wf pos fresh False, of v] False hdin by simp
  qed
  have upd: "\<exists>c'. LruCache_set c k v = Inr c' \<and> order c' = order c
              \<and> store c' = (store c)(k \<mapsto> v)"
    if "0 < max_size c" and "store c k \<noteq> None"
    using set_existing[OF that, of v] by simp
  show ?thesis using law ev upd by (simp add: LruCache_get_def)
qed

theorem LruCache_insertion_order_eviction_witness:
  "set_all (LruCache_init 2) (take 2 demo_entries) = Inr demo_cache
   \<and> (1::int) \<le> 2 \<and> distinct (map fst demo_entries) \<and> length demo_entries = nat 2 + 1
   \<and> (\<exists>c'. set_all (LruCache_init 2) demo_entries = Inr c'
         \<and> fst (LruCache_get c' ''k1'') = None
         \<and> fst (LruCache_get c' ''k3'') = Some (JInt 3))
   \<and> 0 < max_size demo_cache \<and> store demo_cache ''k3'' = None
   \<and> \<not> int (length (order demo_cache)) < max_size demo_cache
   \<and> LruCache_set demo_cache ''k3'' (JInt 3)
       = Inr \<lparr>max_size = 2, store = [''k2'' \<mapsto> JInt 2, ''k3'' \<mapsto> JInt 3], order = [''k2'', ''k3'']\<rparr>
   \<and> store demo_cache ''k1'' \<noteq> None
   \<and> LruCache_set demo_cache ''k1'' (JInt 7)
       = Inr \<lparr>max_size = 2, store = [''k1'' \<mapsto> JInt 7, ''k2'' \<mapsto> JInt 2], order = [''k1'', ''k2'']\<rparr>"
proof -
  have r: "set_all (LruCache_init 2) (take 2 demo_entries) = Inr demo_cache"
    by (simp add: demo_entries_def demo_cache_def LruCache_init_def LruCache_set_def)
  have h: "(1::int) \<le> 2 \<and> distinct (map fst demo_entries) \<and> length demo_entries = nat 2 + 1"
    by (simp add: demo_entries_def)
  note t1 = LruCache_insertion_order_eviction[OF r, of 2 demo_entries "''k3''" "JInt 3"]
  have a: "\<exists>c'. set_all (LruCache_init 2) demo_entries = Inr c'
         \<and> fst (LruCache_get c' ''k1'') = None
         \<and> fst (LruCache_get c' ''k3'') = Some (JInt 3)"
    using t1 h by (simp add: demo_entries_def)
  have b: "0 < max_size demo_cache \<and> store demo_cache ''k3'' = None
     \<and> \<not> int (length (order demo_cache)) < max_size demo_cache
     \<and> store demo_cache ''k1'' \<noteq> None"
    by (simp add: demo_cache_def)
  have c: "LruCache_set demo_cache ''k3'' (JInt 3)
       = Inr \<lparr>max_size = 2, store = [''k2'' \<mapsto> JInt 2, ''k3'' \<mapsto> JInt 3], order = [''k2'', ''k3'']\<rparr>"
    by (simp add: demo_cache_def LruCache_set_def fun_upd_twist)
  have d: "LruCache_set demo_cache ''k1'' (JInt 7)
       = Inr \<lparr>max_size = 2, store = [''k1'' \<mapsto> JInt 7, ''k2'' \<mapsto> JInt 2], order = [''k1'', ''k2'']\<rparr>"
    by (simp add: demo_cache_def LruCache_set_def fun_upd_twist)
  show ?thesis using r h a b c d by blast
qed

section \<open>Properties of the rule planner\<close>


lemma plan_from_rules_Inr:
  assumes "plan_from_rules rt alert assessment = Inr p"
  shows "actions p = strategy_actions (strategy p) (get_path alert ''entities.srcIp'')
                (get_path alert ''entities.username'')
                (py_or (get_path alert ''entities.hostId'') (get_path alert ''entities.hostname''))
           \<and> rollbackActions p = build_rollbacks (actions p)"
  using assms unfolding plan_from_rules_def Let_def
  by (auto split: sum.splits)





lemma action_type [simp]: "type (action t r ps) = t"
  by (simp add: action_def split: prod.splits)

lemma action_parameters [simp]: "parameters (action t r ps) = ps"
  by (simp add: action_def split: prod.splits)


lemma rollback_map_inverse: "map_of rollback_map t = registered_inverse t"
  by (simp add: rollback_map_def registered_inverse_def)

lemma rollbacks_loop_acc:
  "rollbacks_loop as acc = acc @ rollbacks_loop as []"
proof (induction as arbitrary: acc)
  case Nil
  then show ?case by simp
next
  case (Cons a as)
  show ?case
  proof (cases "map_of rollback_map (type a)")
    case None
    then show ?thesis using Cons.IH[of acc] by simp
  next
    case (Some rt)
    show ?thesis
      using Some Cons.IH[of acc]
        Cons.IH[of "acc @ [action rt (''Rollback for '' @ type a) (parameters a)]"]
        Cons.IH[of "[action rt (''Rollback for '' @ type a) (parameters a)]"]
      by simp
  qed
qed

lemma rollbacks_loop_spec:
  "list_all2 is_rollback_of (rollbacks_loop as [])
     (filter (\<lambda>a. registered_inverse (type a) \<noteq> None) as)"
proof (induction as)
  case Nil
  then show ?case by simp
next
  case (Cons a as)
  show ?case
  proof (cases "registered_inverse (type a)")
    case None
    then show ?thesis using Cons.IH by (simp add: rollback_map_inverse)
  next
    case (Some rt)
    then have ne: "rt \<noteq> []" by (auto simp: registered_inverse_def split: if_splits)
    have "rollbacks_loop (a # as) [] =
        action rt (''Rollback for '' @ type a) (parameters a) # rollbacks_loop as []"
      using Some ne
        rollbacks_loop_acc[of as "[action rt (''Rollback for '' @ type a) (parameters a)]"]
      by (simp add: rollback_map_inverse)
    then show ?thesis using Some Cons.IH by (simp add: is_rollback_of_def)
  qed
qed

text \<open>
  Claim C6. In every plan the rule planner returns, the rollback actions are, one for
  one and in reverse order, the inverses of the forward actions whose type has a
  registered inverse, each with the parameters of its forward action; so there are never
  more rollback actions than forward actions.
\<close>

theorem rollbacks_mirror_forward_actions:
  assumes "plan_from_rules rt alert assessment = Inr p"
  shows "list_all2 is_rollback_of (rollbackActions p)
           (rev (filter (\<lambda>a. registered_inverse (type a) \<noteq> None) (actions p)))
       \<and> length (rollbackActions p) \<le> length (actions p)"
proof -
  have rb: "rollbackActions p = build_rollbacks (actions p)"
    using plan_from_rules_Inr[OF assms] by simp
  have l: "list_all2 is_rollback_of (rollbackActions p)
           (rev (filter (\<lambda>a. registered_inverse (type a) \<noteq> None) (actions p)))"
    using rollbacks_loop_spec[of "rev (actions p)"] by (simp add: rb build_rollbacks_def rev_filter)
  then have "length (rollbackActions p)
      = length (rev (filter (\<lambda>a. registered_inverse (type a) \<noteq> None) (actions p)))"
    by (rule list_all2_lengthD)
  then have "length (rollbackActions p) \<le> length (actions p)" by simp
  with l show ?thesis by simp
qed

lemma demo_plan_eval: "plan_from_rules demo_rt demo_alert demo_assessment = Inr demo_plan"
  by code_simp

theorem rollbacks_mirror_forward_actions_witness:
  "plan_from_rules demo_rt demo_alert demo_assessment = Inr demo_plan
   \<and> map type (actions demo_plan) = [''BlockIp'', ''CollectForensics'', ''OpenTicket'']
   \<and> map type (rollbackActions demo_plan) = [''UnblockIp'']
   \<and> list_all2 is_rollback_of (rollbackActions demo_plan)
        (rev (filter (\<lambda>a. registered_inverse (type a) \<noteq> None) (actions demo_plan)))
   \<and> length (rollbackActions demo_plan) \<le> length (actions demo_plan)"
  using rollbacks_mirror_forward_actions[OF demo_plan_eval] demo_plan_eval
  by (simp add: demo_plan_def)










section \<open>Properties of the rule scorer\<close>






section \<open>Properties of the hybrid planner\<close>

text \<open>
  Claim C8. The hybrid planner returns the local planner's plan when the first local call
  does not raise. When it raises and a remote planner is configured, it returns the remote
  planner's plan if that call does not raise. When the remote call raises too, or no
  remote planner is configured, the outcome is that of a second call of the local
  planner, made in the world the earlier calls left behind: its plan, or the exception
  it raises.
\<close>

theorem hybrid_planner_fallback:
  "(local_planner self alert assessment w = (Inr p, w1) \<longrightarrow>
      HybridPlanner_plan self alert assessment w = (Inr p, w1))
   \<and> (local_planner self alert assessment w = (Inl e, w1) \<and> remote_planner self = Some remote
        \<and> remote alert assessment w1 = (Inr p, w2) \<longrightarrow>
      HybridPlanner_plan self alert assessment w = (Inr p, w2))
   \<and> (local_planner self alert assessment w = (Inl e, w1) \<and> remote_planner self = Some remote
        \<and> remote alert assessment w1 = (Inl e2, w2) \<longrightarrow>
      HybridPlanner_plan self alert assessment w = local_planner self alert assessment w2)
   \<and> (local_planner self alert assessment w = (Inl e, w1) \<and> remote_planner self = None \<longrightarrow>
      HybridPlanner_plan self alert assessment w = local_planner self alert assessment w1)
   \<and> (HybridPlanner_plan self alert assessment w = (Inl e3, w3) \<longrightarrow>
      (\<exists>e1 wa wb. local_planner self alert assessment w = (Inl e1, wa)
         \<and> local_planner self alert assessment wb = (Inl e3, w3)))"
proof -
  have last: "\<exists>e1 wa wb. local_planner self alert assessment w = (Inl e1, wa)
         \<and> local_planner self alert assessment wb = (Inl e3, w3)"
    if h: "HybridPlanner_plan self alert assessment w = (Inl e3, w3)"
  proof -
    obtain r wa where l: "local_planner self alert assessment w = (r, wa)" by (cases "local_planner self alert assessment w")
    show ?thesis
    proof (cases r)
      case (Inr p')
      with l h show ?thesis by (simp add: HybridPlanner_plan_def)
    next
      case (Inl e1)
      show ?thesis
      proof (cases "remote_planner self")
        case None
        with l Inl h show ?thesis by (auto simp: HybridPlanner_plan_def)
      next
        case (Some remote')
        obtain r2 wb where rr: "remote' alert assessment wa = (r2, wb)" by (cases "remote' alert assessment wa")
        show ?thesis
        proof (cases r2)
          case (Inr p')
          with l Inl Some rr h show ?thesis by (simp add: HybridPlanner_plan_def)
        next
          case il: (Inl e2')
          with l Inl Some rr h show ?thesis by (auto simp: HybridPlanner_plan_def)
        qed
      qed
    qed
  qed
  show ?thesis using last by (simp add: HybridPlanner_plan_def)
qed

theorem hybrid_planner_fallback_witness:
  "local_planner demo_hybrid JNull JNull 0 = (Inl (OtherError ''model not loaded''), 1)
   \<and> remote_planner demo_hybrid = Some failing_remote
   \<and> failing_remote JNull JNull 1 = (Inl (OtherError ''connection refused''), 2)
   \<and> HybridPlanner_plan demo_hybrid JNull JNull 0 = (Inr (JObj [(''strategy'', JStr ''NotifyOnly'')]), 3)"
proof -
  have l: "local_planner demo_hybrid JNull JNull 0 = (Inl (OtherError ''model not loaded''), 1)"
    by (simp add: demo_hybrid_def flaky_local_def)
  have r: "remote_planner demo_hybrid = Some failing_remote"
    by (simp add: demo_hybrid_def)
  have f: "failing_remote JNull JNull 1 = (Inl (OtherError ''connection refused''), 2)"
    by (simp add: failing_remote_def)
  have l2: "local_planner demo_hybrid JNull JNull 2 = (Inr (JObj [(''strategy'', JStr ''NotifyOnly'')]), 3)"
    by (simp add: demo_hybrid_def flaky_local_def)
  from hybrid_planner_fallback[where self = demo_hybrid and alert = JNull and assessment = JNull
      and w = 0 and e = "OtherError ''model not loaded''" and ?w1.0 = 1 and remote = failing_remote
      and ?w2.0 = 2 and ?e2.0 = "OtherError ''connection refused''"] l r f
  have "HybridPlanner_plan demo_hybrid JNull JNull 0 = local_planner demo_hybrid JNull JNull 2"
    by blast
  with l r f l2 show ?thesis by simp
qed

section \<open>Properties of the service handlers\<close>

text \<open>
  Claim C2 as stated fails. With an entry cached under the alert's key, the score handler
  answers from the cache without calling the scorer, but the plan handler calls the
  planner and returns its plan, not the cached entry; and after a plan request on an
  empty cache the key is still missing.
\<close>

theorem plan_not_cached_counterexample:
  "fst (LruCache_get (cache warm_app) (cache_key demo_dumps scan_alert)) = Some cached_entry
   \<and> score demo_dumps warm_app plan_payload 0
       = (Inr cached_entry, warm_app\<lparr>score_requests := 1\<rparr>, 0)
   \<and> plan demo_rt warm_app plan_payload 0
       = (Inr (JObj [(''plan'', JObj [(''strategy'', JStr ''NotifyOnly'')])]),
          warm_app\<lparr>plan_requests := 1\<rparr>, 1)
   \<and> fst (LruCache_get (cache (fst (snd (plan demo_rt cold_app plan_payload 0))))
            (cache_key demo_dumps scan_alert)) = None"
  by (simp add: warm_app_def cold_app_def plan_payload_def score_def plan_def LruCache_get_def
      cache_key_def cached_entry_def steady_planner_def dict_get_def py_or_def scan_alert_def
      LruCache_init_def Let_def)

text \<open>
  Claim C2, amended. The planner chain is not cache-checked. The plan handler never changes
  the cache, and its response and the world it leaves do not depend on the cache; for a
  payload that is a dictionary it calls the configured planner on every request. The
  score handler is the one that answers from the cache: on a hit with a non-empty entry
  it returns the entry without calling the scorer.
\<close>

theorem plan_ignores_cache:
  "cache (fst (snd (plan rt st payload w))) = cache st
   \<and> fst (plan rt (st\<lparr>cache := c\<rparr>) payload w) = fst (plan rt st payload w)
   \<and> snd (snd (plan rt (st\<lparr>cache := c\<rparr>) payload w)) = snd (snd (plan rt st payload w))
   \<and> (obj_get payload ''alert'' = Inr a \<and> obj_get payload ''assessment'' = Inr s \<longrightarrow>
        snd (snd (plan rt st payload w))
          = snd (planner st (py_or a (JObj [])) (py_or s (JObj [])) w))
   \<and> (obj_get payload ''alert'' = Inr a
        \<and> fst (LruCache_get (cache st) (cache_key dumps (py_or a (JObj [])))) = Some v \<and> truthy v \<longrightarrow>
        score dumps st payload w = (Inr v, st\<lparr>score_requests := score_requests st + 1\<rparr>, w))"
proof -
  have 1: "cache (fst (snd (plan rt st payload w))) = cache st"
    by (simp add: plan_def Let_def split: sum.splits prod.splits)
  have 2: "fst (plan rt (st\<lparr>cache := c\<rparr>) payload w) = fst (plan rt st payload w)"
    by (simp add: plan_def Let_def split: sum.splits prod.splits)
  have 3: "snd (snd (plan rt (st\<lparr>cache := c\<rparr>) payload w)) = snd (snd (plan rt st payload w))"
    by (simp add: plan_def Let_def split: sum.splits prod.splits)
  have 4: "snd (snd (plan rt st payload w))
          = snd (planner st (py_or a (JObj [])) (py_or s (JObj [])) w)"
    if "obj_get payload ''alert'' = Inr a" "obj_get payload ''assessment'' = Inr s"
    using that by (simp add: plan_def Let_def split: sum.splits prod.splits)
  have 5: "score dumps st payload w = (Inr v, st\<lparr>score_requests := score_requests st + 1\<rparr>, w)"
    if "obj_get payload ''alert'' = Inr a"
      "fst (LruCache_get (cache st) (cache_key dumps (py_or a (JObj [])))) = Some v" "truthy v"
    using that by (simp add: score_def Let_def LruCache_get_def)
  show ?thesis using 1 2 3 4 5 by blast
qed

theorem plan_ignores_cache_witness:
  "obj_get plan_payload ''alert'' = Inr scan_alert
   \<and> obj_get plan_payload ''assessment'' = Inr (JObj [(''severity'', JInt 55), (''confidence'', JFloat 0.65)])
   \<and> fst (LruCache_get (cache warm_app) (cache_key demo_dumps (py_or scan_alert (JObj [])))) = Some cached_entry
   \<and> truthy cached_entry
   \<and> cache (fst (snd (plan demo_rt warm_app plan_payload 0))) = cache warm_app
   \<and> snd (snd (plan demo_rt warm_app plan_payload 0)) = 1
   \<and> score demo_dumps warm_app plan_payload 0 = (Inr cached_entry, warm_app\<lparr>score_requests := 1\<rparr>, 0)"
proof -
  have a: "obj_get plan_payload ''alert'' = Inr scan_alert"
    by (simp add: plan_payload_def dict_get_def)
  have s: "obj_get plan_payload ''assessment'' = Inr (JObj [(''severity'', JInt 55), (''confidence'', JFloat 0.65)])"
    by (simp add: plan_payload_def dict_get_def)
  have h: "fst (LruCache_get (cache warm_app) (cache_key demo_dumps (py_or scan_alert (JObj [])))) = Some cached_entry"
    by (simp add: warm_app_def LruCache_get_def cache_key_def py_or_def scan_alert_def)
  have t: "truthy cached_entry" by (simp add: cached_entry_def)
  have p: "snd (planner warm_app (py_or scan_alert (JObj []))
       (py_or (JObj [(''severity'', JInt 55), (''confidence'', JFloat 0.65)]) (JObj [])) 0) = 1"
    by (simp add: warm_app_def steady_planner_def)
  have q: "score_requests warm_app + 1 = 1" by (simp add: warm_app_def)
  from plan_ignores_cache[where rt = demo_rt and st = warm_app and payload = plan_payload and w = 0
      and a = scan_alert and s = "JObj [(''severity'', JInt 55), (''confidence'', JFloat 0.65)]"
      and dumps = demo_dumps and v = cached_entry] a s h t p q
  show ?thesis by simp
qed

section \<open>Properties of the log scanner\<close>




lemma map_sum_Inr: "map_sum id f x = Inr y \<Longrightarrow> \<exists>b. x = Inr b \<and> y = f b"
  by (cases x) auto

lemma match_stateless:
  assumes "\<not> stateful h" "match_heuristic loads r rule h c = Inr (m, c')"
  shows "c' = c"
  using assms
  by (auto simp: match_heuristic_def stateful_def dest!: map_sum_Inr
      split: sum.splits option.splits if_splits)

lemma heur_step_capped: "capped cap st h \<Longrightarrow> heur_step loads cap r rule st h = Inr st"
  by (simp add: heur_step_def capped_def)

lemma heur_step_open:
  assumes "\<not> capped cap st h" "heur_step loads cap r rule st h = Inr st'"
  shows "\<exists>m. match_heuristic loads r rule h (ctx st) = Inr (m, ctx st')"
  using assms
  by (auto simp: heur_step_def capped_def split: sum.splits if_splits prod.splits)

lemma heur_step_counts:
  assumes "heur_step loads cap r rule st h = Inr st'"
  shows "counts st n \<le> counts st' n"
  using assms
  by (auto simp: heur_step_def split: sum.splits if_splits prod.splits)

lemma heur_step_frozen:
  assumes "stateful h \<longrightarrow> capped cap st h" "heur_step loads cap r rule st h = Inr st'"
  shows "ctx st' = ctx st"
proof (cases "capped cap st h")
  case True
  with assms(2) show ?thesis by (simp add: heur_step_capped)
next
  case False
  with assms(1) have ns: "\<not> stateful h" by blast
  from heur_step_open[OF False assms(2)] obtain m where
    "match_heuristic loads r rule h (ctx st) = Inr (m, ctx st')" by blast
  from match_stateless[OF ns this] show ?thesis .
qed

lemma capped_mono:
  assumes "capped cap st h" "\<And>n. counts st n \<le> counts st' n"
  shows "capped cap st' h"
  using assms(1) assms(2)[of "name h"] by (simp add: capped_def)

lemma heurs_loop_frozen:
  assumes "\<forall>h \<in> set hs. stateful h \<longrightarrow> capped cap st h"
    and "heurs_loop loads cap r rule st hs = Inr st'"
  shows "ctx st' = ctx st \<and> (\<forall>n. counts st n \<le> counts st' n)"
  using assms
proof (induction hs arbitrary: st)
  case Nil
  then show ?case by simp
next
  case (Cons h hs)
  from Cons.prems(2) obtain st1 where
    s1: "heur_step loads cap r rule st h = Inr st1"
    and rest: "heurs_loop loads cap r rule st1 hs = Inr st'"
    by (auto split: sum.splits)
  have c1: "ctx st1 = ctx st" using heur_step_frozen[OF _ s1] Cons.prems(1) by simp
  have m1: "\<And>n. counts st n \<le> counts st1 n" using heur_step_counts[OF s1] .
  have "\<forall>h \<in> set hs. stateful h \<longrightarrow> capped cap st1 h"
    using Cons.prems(1) capped_mono[OF _ m1] by auto
  from Cons.IH[OF this rest] c1 m1 show ?case
    by (auto intro: order_trans)
qed

lemma rows_loop_frozen:
  assumes "\<forall>h \<in> set heuristics. stateful h \<longrightarrow> capped cap st h"
    and "rows_loop loads heuristics cap st rows = Inr st'"
  shows "ctx st' = ctx st"
  using assms
proof (induction rows arbitrary: st)
  case Nil
  then show ?case by simp
next
  case (Cons r rs)
  from Cons.prems(2) obtain rule st1 where
    s1: "heurs_loop loads cap r rule st heuristics = Inr st1"
    and rest: "rows_loop loads heuristics cap st1 rs = Inr st'"
    by (auto split: sum.splits)
  from heurs_loop_frozen[OF Cons.prems(1) s1] have
    c1: "ctx st1 = ctx st" and m1: "\<And>n. counts st n \<le> counts st1 n" by auto
  have "\<forall>h \<in> set heuristics. stateful h \<longrightarrow> capped cap st1 h"
    using Cons.prems(1) capped_mono[OF _ m1] by auto
  from Cons.IH[OF this rest] c1 show ?case by simp
qed

lemma heurs_loop_uncapped:
  assumes "cap \<le> 0" "heurs_loop loads cap r rule st hs = Inr st'"
  shows "track_heurs loads r rule (ctx st) hs = Inr (ctx st')"
  using assms(2)
proof (induction hs arbitrary: st)
  case Nil
  then show ?case by simp
next
  case (Cons h hs)
  from Cons.prems obtain st1 where
    s1: "heur_step loads cap r rule st h = Inr st1"
    and rest: "heurs_loop loads cap r rule st1 hs = Inr st'"
    by (auto split: sum.splits)
  have "\<not> capped cap st h" using assms(1) by (simp add: capped_def)
  from heur_step_open[OF this s1] obtain m where
    "match_heuristic loads r rule h (ctx st) = Inr (m, ctx st1)" by blast
  with Cons.IH[OF rest] show ?case by simp
qed

lemma rows_loop_uncapped:
  assumes "cap \<le> 0" "rows_loop loads heuristics cap st rows = Inr st'"
  shows "track_rows loads heuristics (ctx st) rows = Inr (ctx st')"
  using assms(2)
proof (induction rows arbitrary: st)
  case Nil
  then show ?case by simp
next
  case (Cons r rs)
  from Cons.prems obtain rule st1 where
    p: "parse_json_field loads (row_text r ''rule'') = Inr rule"
    and s1: "heurs_loop loads cap r rule st heuristics = Inr st1"
    and rest: "rows_loop loads heuristics cap st1 rs = Inr st'"
    by (auto split: sum.splits)
  from heurs_loop_uncapped[OF assms(1) s1] Cons.IH[OF rest] p show ?case by simp
qed

lemma capped_run:
  "map_sum id ctx (scan_run demo_loads HEURISTICS geo_rows 1)
     = Inr \<lparr>login_history = Some [(JStr ''a1'', JStr ''2.2.2.2'')]\<rparr>"
  by code_simp

lemma uncapped_run:
  "map_sum id ctx (scan_run demo_loads HEURISTICS geo_rows 0)
     = Inr \<lparr>login_history = Some [(JStr ''a1'', JStr ''3.3.3.3'')]\<rparr>"
  by code_simp

text \<open>
  Claim C1 as stated fails. With the catalog of the module and a cap of 1, the third
  record of one identity seen from three addresses is not tracked: the context ends with
  the second address, while with no cap it ends with the third.
\<close>

theorem capped_scan_state_counterexample:
  "map_sum id ctx (scan_run demo_loads HEURISTICS geo_rows 1)
     = Inr \<lparr>login_history = Some [(JStr ''a1'', JStr ''2.2.2.2'')]\<rparr>
   \<and> map_sum id ctx (scan_run demo_loads HEURISTICS geo_rows 0)
     = Inr \<lparr>login_history = Some [(JStr ''a1'', JStr ''3.3.3.3'')]\<rparr>
   \<and> map_sum id ctx (scan_run demo_loads HEURISTICS geo_rows 1)
     \<noteq> map_sum id ctx (scan_run demo_loads HEURISTICS geo_rows 0)"
  using capped_run uncapped_run by simp

text \<open>
  Claim C1, amended. A rule whose count has reached a positive cap is skipped before its
  matcher runs: the step leaves the whole scan state, the context included, as it is.
  Below the cap the step leaves the context the matcher returns. Hence, once every
  stateful rule of the catalog is capped, the context no longer changes for the rest of
  the record stream; and with cap 0 the context after the scan is that of running every
  matcher on every record.
\<close>

theorem cap_skips_state_update:
  "(capped cap st h \<longrightarrow> heur_step loads cap r rule st h = Inr st)
   \<and> (\<not> capped cap st h \<and> heur_step loads cap r rule st h = Inr st1 \<longrightarrow>
        (\<exists>m. match_heuristic loads r rule h (ctx st) = Inr (m, ctx st1)))
   \<and> ((\<forall>g \<in> set heuristics. stateful g \<longrightarrow> capped cap st g)
        \<and> rows_loop loads heuristics cap st rows = Inr st2 \<longrightarrow> ctx st2 = ctx st)
   \<and> (cap \<le> 0 \<and> rows_loop loads heuristics cap st rows = Inr st2 \<longrightarrow>
        track_rows loads heuristics (ctx st) rows = Inr (ctx st2))"
proof -
  have a: "heur_step loads cap r rule st h = Inr st" if "capped cap st h"
    using that by (rule heur_step_capped)
  have b: "\<exists>m. match_heuristic loads r rule h (ctx st) = Inr (m, ctx st1)"
    if "\<not> capped cap st h" "heur_step loads cap r rule st h = Inr st1"
    using that by (rule heur_step_open)
  have c: "ctx st2 = ctx st"
    if "\<forall>g \<in> set heuristics. stateful g \<longrightarrow> capped cap st g"
      "rows_loop loads heuristics cap st rows = Inr st2"
    using that by (rule rows_loop_frozen)
  have d: "track_rows loads heuristics (ctx st) rows = Inr (ctx st2)"
    if "cap \<le> 0" "rows_loop loads heuristics cap st rows = Inr st2"
    using that by (rule rows_loop_uncapped)
  from a b c d show ?thesis by blast
qed

lemma capped_state_all: "\<forall>g \<in> set HEURISTICS. stateful g \<longrightarrow> capped 1 capped_state g"
  by code_simp

lemma capped_state_runs:
  "\<not> isl (rows_loop demo_loads HEURISTICS 1 capped_state (drop 2 geo_rows))"
  by code_simp

lemma open_step_runs:
  "\<not> isl (heur_step demo_loads 0 (geo_rows ! 2) (JObj []) capped_state (HEURISTICS ! 9))"
  by code_simp

lemma not_isl_Inr: "\<not> isl x \<Longrightarrow> \<exists>y. x = Inr y"
  by (cases x) auto

theorem cap_skips_state_update_witness:
  "capped 1 capped_state (HEURISTICS ! 9)
   \<and> heur_step demo_loads 1 (geo_rows ! 2) (JObj []) capped_state (HEURISTICS ! 9) = Inr capped_state
   \<and> \<not> capped 0 capped_state (HEURISTICS ! 9)
   \<and> (\<exists>m c. match_heuristic demo_loads (geo_rows ! 2) (JObj []) (HEURISTICS ! 9) (ctx capped_state)
         = Inr (m, c))
   \<and> list_all (\<lambda>g. stateful g \<longrightarrow> capped 1 capped_state g) HEURISTICS
   \<and> map_sum id ctx (rows_loop demo_loads HEURISTICS 1 capped_state (drop 2 geo_rows))
       = Inr \<lparr>login_history = Some [(JStr ''a1'', JStr ''2.2.2.2'')]\<rparr>
   \<and> (0::int) \<le> 0
   \<and> track_rows demo_loads HEURISTICS empty_context geo_rows
       = Inr \<lparr>login_history = Some [(JStr ''a1'', JStr ''3.3.3.3'')]\<rparr>"
proof -
  have c9: "capped 1 capped_state (HEURISTICS ! 9)" by code_simp
  have n9: "\<not> capped 0 capped_state (HEURISTICS ! 9)" by (simp add: capped_def)
  from not_isl_Inr[OF capped_state_runs] obtain st2 where
    r: "rows_loop demo_loads HEURISTICS 1 capped_state (drop 2 geo_rows) = Inr st2" by blast
  from not_isl_Inr[OF open_step_runs] obtain st1 where
    o: "heur_step demo_loads 0 (geo_rows ! 2) (JObj []) capped_state (HEURISTICS ! 9) = Inr st1" by blast
  from map_sum_Inr[OF uncapped_run] obtain st3 where
    u: "scan_run demo_loads HEURISTICS geo_rows 0 = Inr st3"
       "\<lparr>login_history = Some [(JStr ''a1'', JStr ''3.3.3.3'')]\<rparr> = ctx st3" by blast
  note t1 = cap_skips_state_update[where cap = 1 and st = capped_state and heuristics = HEURISTICS
      and loads = demo_loads and rows = "drop 2 geo_rows" and ?st2.0 = st2 and h = "HEURISTICS ! 9"
      and r = "geo_rows ! 2" and rule = "JObj []"]
  note t2 = cap_skips_state_update[where cap = 0 and heuristics = HEURISTICS
      and st = "\<lparr>candidates = [], counts = (\<lambda>n. 0), ctx = empty_context\<rparr>"
      and loads = demo_loads and rows = geo_rows and ?st2.0 = st3]
  note t3 = cap_skips_state_update[where cap = 0 and st = capped_state and loads = demo_loads
      and h = "HEURISTICS ! 9" and r = "geo_rows ! 2" and rule = "JObj []" and ?st1.0 = st1]
  have 1: "heur_step demo_loads 1 (geo_rows ! 2) (JObj []) capped_state (HEURISTICS ! 9) = Inr capped_state"
    using t1 c9 by blast
  have 2: "\<exists>m c. match_heuristic demo_loads (geo_rows ! 2) (JObj []) (HEURISTICS ! 9) (ctx capped_state)
         = Inr (m, c)"
    using t3 n9 o by blast
  have "ctx st2 = ctx capped_state" using t1 capped_state_all r by blast
  with r have 3: "map_sum id ctx (rows_loop demo_loads HEURISTICS 1 capped_state (drop 2 geo_rows))
       = Inr \<lparr>login_history = Some [(JStr ''a1'', JStr ''2.2.2.2'')]\<rparr>"
    by (simp add: capped_state_def)
  have "track_rows demo_loads HEURISTICS
          (ctx \<lparr>candidates = [], counts = (\<lambda>n. 0), ctx = empty_context\<rparr>) geo_rows = Inr (ctx st3)"
    using t2 u(1) by (simp add: scan_run_def)
  with u(2) have 4: "track_rows demo_loads HEURISTICS empty_context geo_rows
       = Inr \<lparr>login_history = Some [(JStr ''a1'', JStr ''3.3.3.3'')]\<rparr>"
    by simp
  have 5: "list_all (\<lambda>g. stateful g \<longrightarrow> capped 1 capped_state g) HEURISTICS"
    using capped_state_all by (simp add: list_all_iff)
  from c9 1 n9 2 5 3 4 show ?thesis by simp
qed


end
